theory Spec2Isabelle
  imports Main "HOL-Library.Sublist"
begin

section \<open>The web-app generator: one request handler over a file system\<close>

text \<open>
  The server has a single route, \<^verbatim>\<open>POST /generate-app\<close>. Its handler validates the two
  request fields, creates a workspace directory, loads the page in a headless browser,
  writes seven bundle files, zips the directory, sends the zip and removes both.

  Everything the handler does is a call into a library (fs-extra, puppeteer, archiver,
  express). The model keeps the handler's own control flow and takes the libraries'
  answers from an environment: the file system is an explicit store that the calls
  update, every call is appended to a log, and a call that rejects or throws is a value
  \<open>Inl e\<close> that skips the rest of the \<^verbatim>\<open>try\<close> block.
\<close>

subsection \<open>Data\<close>

text \<open>
  A path is its list of components below the root, so \<^verbatim>\<open>path.join\<close> is list append.
  This is exact as long as no joined component contains a separator or is a dot segment;
  the components joined by the handler are literals and the workspace name.
\<close>

type_synonym path = "string list"

definition path_join :: "path \<Rightarrow> string list \<Rightarrow> path" where
  "path_join base parts = base @ parts"

text \<open>What a path holds: a directory, a regular file, or a zip file with its entries.\<close>

datatype node = Dir | File string | ZipFile "path \<Rightarrow> node option"

type_synonym filesystem = "path \<Rightarrow> node option"

fun is_file :: "node option \<Rightarrow> bool" where
  "is_file (Some (File _)) = True"
| "is_file (Some (ZipFile _)) = True"
| "is_file _ = False"

text \<open>The request body after JSON parsing: either field may be absent.\<close>

record request =
  appName :: "string option"
  websiteUrl :: "string option"

text \<open>JavaScript truthiness of a field that is a string or undefined.\<close>

fun truthy :: "string option \<Rightarrow> bool" where
  "truthy None = False"
| "truthy (Some s) = (s \<noteq> [])"

text \<open>The second argument of \<^verbatim>\<open>page.goto\<close>.\<close>

record goto_options =
  waitUntil :: string
  timeout :: nat

datatype error =
    TimeoutError
  | NavigationError
  | BrowserError
  | FsError path
  | ArchiverError
  | SendError

text \<open>The calls the handler makes into its libraries, with their arguments.\<close>

datatype event =
    EnsureDir path
  | Launch "string list"
  | NewPage
  | Goto string goto_options
  | Content
  | Close
  | WriteFile path
  | CopyFile path path
  | CreateWriteStream path
  | Archive path path
  | Download path string
  | Remove path
  | ConsoleError string error

text \<open>
  The response as the caller receives it: Express starts every response at status 200. A
  JSON body of the handler is always an object with the one field \<^verbatim>\<open>error\<close>; a
  download carries the file name of its Content-Disposition header and the file sent; a
  download that breaks off after its headers went out carries the file name and a body
  cut short.
\<close>

datatype body = NoBody | JsonError string | Attachment string node | Partial string

record response =
  status :: nat
  body :: body

definition res_json :: "nat \<Rightarrow> string \<Rightarrow> response" where
  "res_json code msg = \<lparr>status = code, body = JsonError msg\<rparr>"

text \<open>
  What the handler cannot decide: the directory of the script, the sanitizer (the npm
  package sanitize-filename), the token \<^verbatim>\<open>uuidv4()\<close> returns for this request, which
  library calls fail and how, the markup the browser serializes for a URL, and, for a
  send that fails, whether the response headers were already out (\<^verbatim>\<open>res.headersSent\<close>).
\<close>

record env =
  dirname :: path
  sanitizeFilename :: "string \<Rightarrow> string"
  uuidv4 :: string
  throws :: "event \<Rightarrow> error option"
  rendered :: "string \<Rightarrow> string"
  headersSent :: bool

record world =
  fs :: filesystem
  log :: "event list"

subsection \<open>Calls that may fail\<close>

type_synonym 'a io = "world \<Rightarrow> (error + 'a) \<times> world"

text \<open>\<^verbatim>\<open>await\<close> in a \<^verbatim>\<open>try\<close> block: a rejection skips what follows, the effects so far stay.\<close>

definition bind :: "'a io \<Rightarrow> ('a \<Rightarrow> 'b io) \<Rightarrow> 'b io" where
  "bind m f w = (case m w of (Inl e, w') \<Rightarrow> (Inl e, w') | (Inr x, w') \<Rightarrow> f x w')"

definition call :: "env \<Rightarrow> event \<Rightarrow> unit io" where
  "call e ev w =
     (let w' = w\<lparr>log := log w @ [ev]\<rparr>
      in case throws e ev of Some err \<Rightarrow> (Inl err, w') | None \<Rightarrow> (Inr (), w'))"

subsection \<open>File-system calls\<close>

text \<open>\<^verbatim>\<open>fs.ensureDir\<close>: create the directory and every missing ancestor; a file in the way fails.\<close>

definition mkdirs :: "path list \<Rightarrow> filesystem \<Rightarrow> filesystem" where
  "mkdirs ps m = fold (\<lambda>q m'. if m' q = None then m'(q \<mapsto> Dir) else m') ps m"

definition ensureDir :: "env \<Rightarrow> path \<Rightarrow> unit io" where
  "ensureDir e p =
     bind (call e (EnsureDir p)) (\<lambda>_ w.
       if list_ex (\<lambda>q. is_file (fs w q)) (prefixes p) then (Inl (FsError p), w)
       else (Inr (), w\<lparr>fs := mkdirs (prefixes p) (fs w)\<rparr>))"

text \<open>\<^verbatim>\<open>fs.writeFile\<close>: the parent must be a directory and the target must not be one.\<close>

definition writeFile :: "env \<Rightarrow> path \<Rightarrow> string \<Rightarrow> unit io" where
  "writeFile e p data =
     bind (call e (WriteFile p)) (\<lambda>_ w.
       if fs w (butlast p) \<noteq> Some Dir \<or> fs w p = Some Dir then (Inl (FsError p), w)
       else (Inr (), w\<lparr>fs := (fs w)(p \<mapsto> File data)\<rparr>))"

text \<open>\<^verbatim>\<open>fs.copyFile\<close>: the source must be a regular file.\<close>

definition copyFile :: "env \<Rightarrow> path \<Rightarrow> path \<Rightarrow> unit io" where
  "copyFile e src dst =
     bind (call e (CopyFile src dst)) (\<lambda>_ w.
       if \<not> is_file (fs w src) then (Inl (FsError src), w)
       else if fs w (butlast dst) \<noteq> Some Dir \<or> fs w dst = Some Dir then (Inl (FsError dst), w)
       else (Inr (), w\<lparr>fs := (fs w)(dst := fs w src)\<rparr>))"

text \<open>
  \<^verbatim>\<open>fs.remove\<close>: the path and everything below it. The handler does not await it, so a
  failure is an unhandled rejection that changes nothing.
\<close>

definition remove :: "env \<Rightarrow> path \<Rightarrow> world \<Rightarrow> world" where
  "remove e p w =
     (let w' = w\<lparr>log := log w @ [Remove p]\<rparr>
      in case throws e (Remove p) of
           Some _ \<Rightarrow> w'
         | None \<Rightarrow> w'\<lparr>fs := (\<lambda>q. if prefix p q then None else fs w q)\<rparr>)"

subsection \<open>The bundle files\<close>

text \<open>The template literals of \<^verbatim>\<open>generateAppFiles\<close>, line by line. Each starts with a line break.\<close>

definition indexHtml :: "string \<Rightarrow> string \<Rightarrow> string" where
  \<open>indexHtml name content = concat [
    ''\<newline>'',
    ''<!DOCTYPE html>\<newline>'',
    ''<html lang="en">\<newline>'',
    ''<head>\<newline>'',
    ''    <meta charset="UTF-8">\<newline>'',
    ''    <meta name="viewport" content="width=device-width, initial-scale=1.0">\<newline>'',
    ''    <title>'', name, ''</title>\<newline>'',
    ''    <link rel="manifest" href="manifest.json">\<newline>'',
    ''    <meta name="theme-color" content="#000000">\<newline>'',
    ''    <link rel="stylesheet" href="styles.css">\<newline>'',
    ''</head>\<newline>'',
    ''<body>\<newline>'',
    ''    <div id="app-content">\<newline>'',
    ''      '', content, ''\<newline>'',
    ''    </div>\<newline>'',
    ''    <script src="app.js"></script>\<newline>'',
    ''</body>\<newline>'',
    ''</html>'']\<close>

text \<open>
  \<^verbatim>\<open>JSON.stringify\<close> of a string: quotes, backslashes and control characters are escaped,
  every other character is kept.
\<close>

definition hex_digit :: "nat \<Rightarrow> char" where
  "hex_digit n = (if n < 16 then ''0123456789abcdef'' ! n else CHR ''0'')"

definition json_escape :: "char \<Rightarrow> string" where
  "json_escape c =
     (if c = CHR 0x22 then [CHR 0x5C, CHR 0x22]
      else if c = CHR 0x5C then [CHR 0x5C, CHR 0x5C]
      else if c = CHR 0x08 then [CHR 0x5C, CHR ''b'']
      else if c = CHR 0x0C then [CHR 0x5C, CHR ''f'']
      else if c = CHR 0x0A then [CHR 0x5C, CHR ''n'']
      else if c = CHR 0x0D then [CHR 0x5C, CHR ''r'']
      else if c = CHR 0x09 then [CHR 0x5C, CHR ''t'']
      else if (of_char c :: nat) < 32
        then [CHR 0x5C, CHR ''u'', CHR ''0'', CHR ''0'',
              hex_digit (of_char c div 16), hex_digit (of_char c mod 16)]
      else [c])"

definition json_string :: "string \<Rightarrow> string" where
  "json_string s = [CHR 0x22] @ concat (map json_escape s) @ [CHR 0x22]"

text \<open>\<^verbatim>\<open>JSON.stringify(manifest, null, 2)\<close>.\<close>

definition manifest :: "string \<Rightarrow> string" where
  \<open>manifest name = concat [
    ''{\<newline>'',
    ''  "name": '', json_string name, '',\<newline>'',
    ''  "short_name": '', json_string name, '',\<newline>'',
    ''  "start_url": "/",\<newline>'',
    ''  "display": "standalone",\<newline>'',
    ''  "background_color": "#ffffff",\<newline>'',
    ''  "theme_color": "#000000",\<newline>'',
    ''  "icons": [\<newline>'',
    ''    {\<newline>'',
    ''      "src": "icon-192x192.png",\<newline>'',
    ''      "sizes": "192x192",\<newline>'',
    ''      "type": "image/png"\<newline>'',
    ''    },\<newline>'',
    ''    {\<newline>'',
    ''      "src": "icon-512x512.png",\<newline>'',
    ''      "sizes": "512x512",\<newline>'',
    ''      "type": "image/png"\<newline>'',
    ''    }\<newline>'',
    ''  ]\<newline>'',
    ''}'']\<close>

definition serviceWorker :: "string \<Rightarrow> string" where
  \<open>serviceWorker name = concat [
    ''\<newline>'',
    ''const CACHE_NAME = '', [CHR 0x27], name, ''-v1';\<newline>'',
    ''const urlsToCache = [\<newline>'',
    ''  '/',\<newline>'',
    ''  '/index.html',\<newline>'',
    ''  '/manifest.json',\<newline>'',
    ''  '/styles.css',\<newline>'',
    ''  '/app.js',\<newline>'',
    ''  '/icon-192x192.png',\<newline>'',
    ''  '/icon-512x512.png'', [CHR 0x27], ''\<newline>'',
    ''];\<newline>'',
    ''\<newline>'',
    ''self.addEventListener('install', (event) => {\<newline>'',
    ''  event.waitUntil(\<newline>'',
    ''    caches.open(CACHE_NAME)\<newline>'',
    ''      .then((cache) => cache.addAll(urlsToCache))\<newline>'',
    ''  );\<newline>'',
    ''});\<newline>'',
    ''\<newline>'',
    ''self.addEventListener('fetch', (event) => {\<newline>'',
    ''  event.respondWith(\<newline>'',
    ''    caches.match(event.request)\<newline>'',
    ''      .then((response) => response || fetch(event.request))\<newline>'',
    ''  );\<newline>'',
    ''});'']\<close>

definition appJs :: string where
  \<open>appJs = concat [
    ''\<newline>'',
    ''if ('serviceWorker' in navigator) {\<newline>'',
    ''  window.addEventListener('load', () => {\<newline>'',
    ''    navigator.serviceWorker.register('/sw.js')\<newline>'',
    ''      .then((registration) => {\<newline>'',
    ''        console.log('Service Worker registered:', registration);\<newline>'',
    ''      })\<newline>'',
    ''      .catch((error) => {\<newline>'',
    ''        console.log('Service Worker registration failed:', error);\<newline>'',
    ''      });\<newline>'',
    ''  });\<newline>'',
    ''}\<newline>'',
    ''\<newline>'',
    ''// Add any additional app-specific JavaScript here\<newline>'']\<close>

definition stylesCss :: string where
  \<open>stylesCss = concat [
    ''\<newline>'',
    ''body {\<newline>'',
    ''  font-family: Arial, sans-serif;\<newline>'',
    ''  line-height: 1.6;\<newline>'',
    ''  margin: 0;\<newline>'',
    ''  padding: 0;\<newline>'',
    ''}\<newline>'',
    ''\<newline>'',
    ''#app-content {\<newline>'',
    ''  max-width: 1200px;\<newline>'',
    ''  margin: 0 auto;\<newline>'',
    ''  padding: 20px;\<newline>'',
    ''}\<newline>'',
    ''\<newline>'',
    ''/* Add any additional styles here */\<newline>'']\<close>

text \<open>Five files written from the templates, then the two icons copied from beside the script.\<close>

definition generateAppFiles :: "env \<Rightarrow> path \<Rightarrow> string \<Rightarrow> string \<Rightarrow> string \<Rightarrow> unit io" where
  "generateAppFiles e appDir name content url =
     bind (writeFile e (path_join appDir [''index.html'']) (indexHtml name content)) (\<lambda>_.
     bind (writeFile e (path_join appDir [''manifest.json'']) (manifest name)) (\<lambda>_.
     bind (writeFile e (path_join appDir [''sw.js'']) (serviceWorker name)) (\<lambda>_.
     bind (writeFile e (path_join appDir [''app.js'']) appJs) (\<lambda>_.
     bind (writeFile e (path_join appDir [''styles.css'']) stylesCss) (\<lambda>_.
     bind (copyFile e (path_join (dirname e) [''placeholder-icon-192x192.png''])
                      (path_join appDir [''icon-192x192.png''])) (\<lambda>_.
     copyFile e (path_join (dirname e) [''placeholder-icon-512x512.png''])
                (path_join appDir [''icon-512x512.png''])))))))"

subsection \<open>The archive\<close>

text \<open>
  \<^verbatim>\<open>archive.directory(sourceDir, false)\<close>: every regular file below the directory, under its
  path relative to the directory.
\<close>

definition archive_of :: "filesystem \<Rightarrow> path \<Rightarrow> path \<Rightarrow> node option" where
  "archive_of m dir rel =
     (if rel \<noteq> [] \<and> is_file (m (dir @ rel)) then m (dir @ rel) else None)"

text \<open>
  \<^verbatim>\<open>createZipArchive\<close>: a write stream on the output file, the archiver piped into it.
  The promise rejects on an archiver error and resolves when the stream closes; the
  stream's own error has no listener. So there are three outcomes:
  \<^item> the archiver fails: the promise rejects, and the output file is what the stream had
    written so far (here: an empty file), or absent when the stream failed as well;
  \<^item> the stream fails: it closes and the promise resolves, with no file at the output path;
  \<^item> neither fails: the promise resolves with the complete zip on disk.
\<close>

definition createZipArchive :: "env \<Rightarrow> path \<Rightarrow> path \<Rightarrow> unit io" where
  "createZipArchive e sourceDir outPath w =
     (let w' = w\<lparr>log := log w @ [CreateWriteStream outPath, Archive sourceDir outPath]\<rparr>;
          stream_failed = (throws e (CreateWriteStream outPath) \<noteq> None)
      in case throws e (Archive sourceDir outPath) of
           Some err \<Rightarrow>
             (Inl err, w'\<lparr>fs := (if stream_failed then (fs w)(outPath := None)
                                   else (fs w)(outPath \<mapsto> File []))\<rparr>)
         | None \<Rightarrow>
             if stream_failed then (Inr (), w'\<lparr>fs := (fs w)(outPath := None)\<rparr>)
             else (Inr (), w'\<lparr>fs := (fs w)(outPath \<mapsto> ZipFile (archive_of (fs w) sourceDir))\<rparr>))"

subsection \<open>The handler\<close>

text \<open>The browser calls: launch, new page, navigation, serialization, close.\<close>

definition launch_args :: "string list" where
  "launch_args = [''--no-sandbox'', ''--disable-setuid-sandbox'']"

definition capture :: "env \<Rightarrow> string \<Rightarrow> string io" where
  "capture e url =
     bind (call e (Launch launch_args)) (\<lambda>_.
     bind (call e NewPage) (\<lambda>_.
     bind (call e (Goto url \<lparr>waitUntil = ''networkidle0'', timeout = 60000\<rparr>)) (\<lambda>_.
     bind (call e Content) (\<lambda>_.
     bind (call e Close) (\<lambda>_ w.
     (Inr (rendered e url), w))))))"

text \<open>
  \<^verbatim>\<open>res.download(zipPath, name, callback)\<close> with its callback. The send fails when the
  library call fails or when no regular file is at \<^verbatim>\<open>zipPath\<close>; the callback then logs
  the error and calls \<^verbatim>\<open>res.status(500).json\<close>.
  \<^item> No error: the caller gets 200 and the file; both removals are started.
  \<^item> An error before the headers went out (always so when the file is missing): the caller
    gets 500 with the callback's message; both removals are started.
  \<^item> An error after the headers went out: the caller keeps the 200 already sent, with the
    body cut short; \<^verbatim>\<open>res.status(500).json\<close> throws inside the callback, so neither
    removal is reached.
\<close>

definition download :: "env \<Rightarrow> path \<Rightarrow> string \<Rightarrow> path \<Rightarrow> response io" where
  "download e zipPath name appDir w =
     (let w1 = w\<lparr>log := log w @ [Download zipPath name]\<rparr>;
          err = (case throws e (Download zipPath name) of
                   Some x \<Rightarrow> Some x
                 | None \<Rightarrow> if is_file (fs w zipPath) then None else Some (FsError zipPath))
      in case err of
           None \<Rightarrow>
             (Inr \<lparr>status = 200, body = Attachment name (the (fs w zipPath))\<rparr>,
              remove e zipPath (remove e appDir w1))
         | Some x \<Rightarrow>
             (let w2 = w1\<lparr>log := log w1 @ [ConsoleError ''Error sending file:'' x]\<rparr>
              in if headersSent e \<and> is_file (fs w zipPath)
                 then (Inr \<lparr>status = 200, body = Partial name\<rparr>, w2)
                 else (Inr (res_json 500 ''Error sending file''),
                       remove e zipPath (remove e appDir w2))))"

text \<open>The workspace directory and the archive beside it, both under \<^verbatim>\<open>generated-apps\<close>.\<close>

definition appDir_of :: "path \<Rightarrow> string \<Rightarrow> string \<Rightarrow> path" where
  "appDir_of dir sanitizedAppName uniqueId =
     path_join dir [''generated-apps'', sanitizedAppName @ ''-'' @ uniqueId]"

definition zipPath_of :: "path \<Rightarrow> string \<Rightarrow> string \<Rightarrow> path" where
  "zipPath_of dir sanitizedAppName uniqueId =
     path_join dir [''generated-apps'', sanitizedAppName @ ''-'' @ uniqueId @ ''.zip'']"

text \<open>The body of the \<^verbatim>\<open>try\<close> block.\<close>

definition try_body :: "env \<Rightarrow> request \<Rightarrow> response io" where
  "try_body e req =
     (if \<not> truthy (appName req) \<or> \<not> truthy (websiteUrl req)
      then (\<lambda>w. (Inr (res_json 400 ''Missing required fields''), w))
      else
        let name = the (appName req);
            url = the (websiteUrl req);
            sanitizedAppName = sanitizeFilename e name;
            uniqueId = uuidv4 e;
            appDir = appDir_of (dirname e) sanitizedAppName uniqueId
        in bind (ensureDir e appDir) (\<lambda>_.
           bind (capture e url) (\<lambda>content.
           bind (generateAppFiles e appDir sanitizedAppName content url) (\<lambda>_.
           let zipPath = zipPath_of (dirname e) sanitizedAppName uniqueId
           in bind (createZipArchive e appDir zipPath) (\<lambda>_.
              download e zipPath (sanitizedAppName @ ''.zip'') appDir)))))"

text \<open>The handler: the \<^verbatim>\<open>try\<close> block and its \<^verbatim>\<open>catch\<close>.\<close>

definition generate_app :: "env \<Rightarrow> request \<Rightarrow> world \<Rightarrow> response \<times> world" where
  "generate_app e req w =
     (case try_body e req w of
        (Inl err, w') \<Rightarrow>
          (res_json 500 ''Internal server error'',
           w'\<lparr>log := log w' @ [ConsoleError ''Error generating app:'' err]\<rparr>)
      | (Inr res, w') \<Rightarrow> (res, w'))"

subsection \<open>The token and a concrete setting\<close>

text \<open>
  \<^verbatim>\<open>uuidv4()\<close> returns the textual form of a version-4 UUID: 36 characters, lower-case
  hexadecimal digits in groups of 8, 4, 4, 4 and 12 separated by hyphens, the third
  group starting with 4 and the fourth with 8, 9, a or b.
\<close>

definition uuid_char :: "char \<Rightarrow> char \<Rightarrow> bool" where
  "uuid_char pat c =
     (if pat = CHR ''-'' then c = CHR ''-''
      else if pat = CHR ''4'' then c = CHR ''4''
      else if pat = CHR ''y'' then c \<in> set ''89ab''
      else c \<in> set ''0123456789abcdef'')"

definition is_uuid :: "string \<Rightarrow> bool" where
  "is_uuid u = list_all2 uuid_char ''xxxxxxxx-xxxx-4xxx-yxxx-xxxxxxxxxxxx'' u"

text \<open>
  Modelled from the spec: the sanitizer is the npm package sanitize-filename, which is
  not part of the repository. Section 4.1 has it strip path separators and reserved
  characters; this one removes the characters \<^verbatim>\<open>/ ? < > \ : * | "\<close> and keeps the rest.
  The handler takes the sanitizer from its environment; this instance serves the
  concrete runs below.
\<close>

definition strip_reserved :: "string \<Rightarrow> string" where
  "strip_reserved s =
     filter (\<lambda>c. c \<notin> set [CHR ''/'', CHR ''?'', CHR ''<'', CHR ''>'', CHR 0x5C, CHR '':'',
                              CHR ''*'', CHR ''|'', CHR 0x22]) s"

text \<open>A server in \<^verbatim>\<open>/srv/app\<close> with both placeholder icons in place and no library call failing.\<close>

definition example_env :: env where
  "example_env =
     \<lparr>dirname = [''srv'', ''app''],
      sanitizeFilename = strip_reserved,
      uuidv4 = ''3f2b8c1e-5d4a-4e6f-9a7b-0c1d2e3f4a5b'',
      throws = (\<lambda>_. None),
      rendered = (\<lambda>_. ''<p>Hello</p>''),
      headersSent = False\<rparr>"

definition example_world :: world where
  "example_world =
     \<lparr>fs = [[''srv'', ''app'', ''placeholder-icon-192x192.png''] \<mapsto> File ''png192'',
            [''srv'', ''app'', ''placeholder-icon-512x512.png''] \<mapsto> File ''png512''],
      log = []\<rparr>"

definition example_request :: request where
  "example_request = \<lparr>appName = Some ''My App'', websiteUrl = Some ''https://example.com''\<rparr>"

text \<open>
  Variations: the navigation fails; sending the archive fails before the headers are out;
  sending breaks off after they are out.
\<close>

definition capture_failure_env :: env where
  "capture_failure_env =
     example_env\<lparr>throws := (\<lambda>ev. case ev of Goto _ _ \<Rightarrow> Some NavigationError | _ \<Rightarrow> None)\<rparr>"

definition send_failure_env :: env where
  "send_failure_env =
     example_env\<lparr>throws := (\<lambda>ev. case ev of Download _ _ \<Rightarrow> Some SendError | _ \<Rightarrow> None)\<rparr>"

definition aborted_send_env :: env where
  "aborted_send_env = send_failure_env\<lparr>headersSent := True\<rparr>"

subsection \<open>Observations on a run\<close>

text \<open>The library calls (and console messages) of one request: what the handler adds to the log.\<close>

definition calls :: "env \<Rightarrow> request \<Rightarrow> world \<Rightarrow> event list" where
  "calls e req w = drop (length (log w)) (log (snd (generate_app e req w)))"

text \<open>
  A request is successful when both fields are present and the handler reports no error:
  neither the \<^verbatim>\<open>catch\<close> block nor the error branch of the download callback runs.
\<close>

fun is_error_log :: "event \<Rightarrow> bool" where
  "is_error_log (ConsoleError _ _) = True"
| "is_error_log _ = False"

definition successful :: "env \<Rightarrow> request \<Rightarrow> world \<Rightarrow> bool" where
  "successful e req w =
     (truthy (appName req) \<and> truthy (websiteUrl req) \<and>
      list_all (\<lambda>ev. \<not> is_error_log ev) (calls e req w))"

text \<open>Every event an action appends to the log satisfies \<open>P\<close>.\<close>

definition emits :: "(event \<Rightarrow> bool) \<Rightarrow> 'a io \<Rightarrow> bool" where
  "emits P m = (\<forall>w. \<exists>xs. log (snd (m w)) = log w @ xs \<and> list_all P xs)"

section \<open>Properties\<close>

subsection \<open>Sequencing and the call log\<close>

lemma bind_Inr_iff:
  "bind m f w = (Inr y, w') \<longleftrightarrow> (\<exists>x w1. m w = (Inr x, w1) \<and> f x w1 = (Inr y, w'))"
  by (auto simp: bind_def split: prod.splits sum.splits)

lemma bind_Inl_iff:
  "bind m f w = (Inl err, w') \<longleftrightarrow>
     m w = (Inl err, w') \<or> (\<exists>x w1. m w = (Inr x, w1) \<and> f x w1 = (Inl err, w'))"
  by (auto simp: bind_def split: prod.splits sum.splits)

lemma emits_bind:
  assumes "emits P m" and "\<And>x. emits P (f x)"
  shows "emits P (bind m f)"
proof (unfold emits_def, intro allI)
  fix w
  obtain r w1 where mw: "m w = (r, w1)" by (cases "m w")
  from assms(1) mw obtain xs where xs: "log w1 = log w @ xs" "list_all P xs"
    unfolding emits_def by (metis snd_conv)
  show "\<exists>zs. log (snd (bind m f w)) = log w @ zs \<and> list_all P zs"
  proof (cases r)
    case (Inl err)
    with mw xs show ?thesis by (auto simp: bind_def)
  next
    case (Inr x)
    from assms(2)[of x] obtain ys where ys: "log (snd (f x w1)) = log w1 @ ys" "list_all P ys"
      unfolding emits_def by blast
    with mw xs Inr show ?thesis by (auto simp: bind_def)
  qed
qed

lemma emits_call: "P ev \<Longrightarrow> emits P (call e ev)"
  by (auto simp: emits_def call_def Let_def split: option.splits)

lemma emits_pure: "(\<And>w. log (snd (m w)) = log w) \<Longrightarrow> emits P m"
  by (auto simp: emits_def)

lemma emits_ensureDir: "P (EnsureDir p) \<Longrightarrow> emits P (ensureDir e p)"
  unfolding ensureDir_def by (intro emits_bind emits_call emits_pure) auto

lemma emits_writeFile: "P (WriteFile p) \<Longrightarrow> emits P (writeFile e p d)"
  unfolding writeFile_def by (intro emits_bind emits_call emits_pure) auto

lemma emits_copyFile: "P (CopyFile s d) \<Longrightarrow> emits P (copyFile e s d)"
  unfolding copyFile_def by (intro emits_bind emits_call emits_pure) auto

lemma emits_createZipArchive:
  "P (CreateWriteStream z) \<Longrightarrow> P (Archive s z) \<Longrightarrow> emits P (createZipArchive e s z)"
  by (auto simp: emits_def createZipArchive_def Let_def split: option.splits)

lemma emits_capture:
  "list_all P [Launch launch_args, NewPage,
               Goto url \<lparr>waitUntil = ''networkidle0'', timeout = 60000\<rparr>, Content, Close]
   \<Longrightarrow> emits P (capture e url)"
  unfolding capture_def by (intro emits_bind emits_call emits_pure) auto

lemma emits_generateAppFiles:
  "list_all P [WriteFile (appDir @ [''index.html'']), WriteFile (appDir @ [''manifest.json'']),
               WriteFile (appDir @ [''sw.js'']), WriteFile (appDir @ [''app.js'']),
               WriteFile (appDir @ [''styles.css'']),
               CopyFile (dirname e @ [''placeholder-icon-192x192.png'']) (appDir @ [''icon-192x192.png'']),
               CopyFile (dirname e @ [''placeholder-icon-512x512.png'']) (appDir @ [''icon-512x512.png''])]
   \<Longrightarrow> emits P (generateAppFiles e appDir name content url)"
  unfolding generateAppFiles_def path_join_def
  by (intro emits_bind emits_writeFile emits_copyFile) auto

lemma emits_download:
  "list_all P [Download z n, Remove d, Remove z] \<Longrightarrow> (\<And>err. P (ConsoleError ''Error sending file:'' err))
   \<Longrightarrow> emits P (download e z n d)"
  by (auto simp: emits_def download_def remove_def Let_def split: option.splits)

lemma emits_try_body:
  assumes "list_all P
     [EnsureDir (appDir_of (dirname e) (sanitizeFilename e (the (appName req))) (uuidv4 e)),
      Launch launch_args, NewPage,
      Goto (the (websiteUrl req)) \<lparr>waitUntil = ''networkidle0'', timeout = 60000\<rparr>, Content, Close,
      CreateWriteStream (zipPath_of (dirname e) (sanitizeFilename e (the (appName req))) (uuidv4 e)),
      Archive (appDir_of (dirname e) (sanitizeFilename e (the (appName req))) (uuidv4 e))
              (zipPath_of (dirname e) (sanitizeFilename e (the (appName req))) (uuidv4 e)),
      Download (zipPath_of (dirname e) (sanitizeFilename e (the (appName req))) (uuidv4 e))
               (sanitizeFilename e (the (appName req)) @ ''.zip''),
      Remove (appDir_of (dirname e) (sanitizeFilename e (the (appName req))) (uuidv4 e)),
      Remove (zipPath_of (dirname e) (sanitizeFilename e (the (appName req))) (uuidv4 e))]"
    and "\<And>p. P (WriteFile p)" and "\<And>s d. P (CopyFile s d)"
    and "\<And>err. P (ConsoleError ''Error sending file:'' err)"
  shows "emits P (try_body e req)"
proof (cases "truthy (appName req) \<and> truthy (websiteUrl req)")
  case False
  then show ?thesis unfolding try_body_def by (auto intro: emits_pure)
next
  case True
  with assms show ?thesis unfolding try_body_def Let_def
    by (auto intro!: emits_bind emits_ensureDir emits_capture emits_generateAppFiles
          emits_createZipArchive emits_download)
qed

lemma calls_all:
  assumes "emits P (try_body e req)" and "\<And>err. P (ConsoleError ''Error generating app:'' err)"
  shows "list_all P (calls e req w)"
proof -
  from assms(1) obtain xs where xs: "log (snd (try_body e req w)) = log w @ xs" "list_all P xs"
    unfolding emits_def by blast
  then show ?thesis using assms(2)
    by (cases "try_body e req w") (auto simp: calls_def generate_app_def split: sum.splits)
qed

lemma log_ensureDir: "log (snd (ensureDir e p w)) = log w @ [EnsureDir p]"
  by (auto simp: ensureDir_def bind_def call_def Let_def split: option.splits)

lemma bind_log_extends:
  assumes "\<And>x. emits (\<lambda>_. True) (f x)"
  shows "\<exists>ys. log (snd (bind m f w)) = log (snd (m w)) @ ys"
proof (cases "m w")
  case (Pair r w1)
  show ?thesis
  proof (cases r)
    case (Inl err)
    with Pair show ?thesis by (simp add: bind_def)
  next
    case (Inr x)
    from assms[of x] obtain ys where "log (snd (f x w1)) = log w1 @ ys"
      unfolding emits_def by blast
    with Pair Inr show ?thesis by (simp add: bind_def)
  qed
qed

lemma calls_start:
  assumes "truthy (appName req)" and "truthy (websiteUrl req)"
  shows "\<exists>rest. calls e req w =
     EnsureDir (appDir_of (dirname e) (sanitizeFilename e (the (appName req))) (uuidv4 e)) # rest"
proof -
  let ?d = "appDir_of (dirname e) (sanitizeFilename e (the (appName req))) (uuidv4 e)"
  have "\<exists>ys. log (snd (try_body e req w)) = log (snd (ensureDir e ?d w)) @ ys"
    using assms unfolding try_body_def Let_def
    by (simp, intro bind_log_extends)
       (auto intro!: emits_bind emits_capture emits_generateAppFiles
          emits_createZipArchive emits_download)
  then obtain ys where "log (snd (try_body e req w)) = log w @ EnsureDir ?d # ys"
    unfolding log_ensureDir by auto
  then show ?thesis
    by (cases "try_body e req w") (auto simp: calls_def generate_app_def split: sum.splits)
qed

text \<open>
  Every navigation the handler starts is called with the wait condition
  \<^verbatim>\<open>networkidle0\<close> and the timeout 60000 ms, whatever the request: the options are a
  constant of the handler. How long the browser then waits, there and in the launch, is
  outside this model, which has no time (C10).
\<close>

lemma goto_options_fixed:
  "Goto u opts \<in> set (calls e req w) \<Longrightarrow> waitUntil opts = ''networkidle0'' \<and> timeout opts = 60000"
proof -
  let ?P = "\<lambda>ev. \<forall>u opts. ev = Goto u opts \<longrightarrow> waitUntil opts = ''networkidle0'' \<and> timeout opts = 60000"
  have "emits ?P (try_body e req)" by (rule emits_try_body) auto
  then have "list_all ?P (calls e req w)" by (rule calls_all) simp
  then show "Goto u opts \<in> set (calls e req w) \<Longrightarrow> waitUntil opts = ''networkidle0'' \<and> timeout opts = 60000"
    by (auto simp: list_all_iff)
qed

subsection \<open>Workspace and archive paths\<close>

lemma is_uuid_length: "is_uuid u \<Longrightarrow> length u = 36"
  unfolding is_uuid_def by (drule list_all2_lengthD) simp

lemma is_uuid_last: "is_uuid u \<Longrightarrow> last u \<in> set ''0123456789abcdef''"
proof -
  assume u: "is_uuid u"
  then have len: "length u = 36" by (rule is_uuid_length)
  from u have "uuid_char (''xxxxxxxx-xxxx-4xxx-yxxx-xxxxxxxxxxxx'' ! 35) (u ! 35)"
    unfolding is_uuid_def by (rule list_all2_nthD) simp
  then have "u ! 35 \<in> set ''0123456789abcdef''" by (simp add: uuid_char_def)
  moreover have "last u = u ! 35"
  proof -
    from len have "u \<noteq> []" by auto
    then have "last u = u ! (length u - 1)" by (rule last_conv_nth)
    with len show ?thesis by simp
  qed
  ultimately show ?thesis by simp
qed

lemma suffix_eq:
  "length a = length b \<Longrightarrow> s1 @ a = s2 @ b \<Longrightarrow> a = b"
  by simp

lemma names_distinct:
  assumes "length u1 = length u2" and "u1 \<noteq> u2"
  shows "s1 @ ''-'' @ u1 \<noteq> s2 @ ''-'' @ u2"
    and "s1 @ ''-'' @ u1 @ ''.zip'' \<noteq> s2 @ ''-'' @ u2 @ ''.zip''"
proof -
  show "s1 @ ''-'' @ u1 \<noteq> s2 @ ''-'' @ u2"
  proof
    assume "s1 @ ''-'' @ u1 = s2 @ ''-'' @ u2"
    moreover have "length (''-'' @ u1) = length (''-'' @ u2)" using assms(1) by simp
    ultimately have "''-'' @ u1 = ''-'' @ u2" by (rule suffix_eq[rotated])
    with assms(2) show False by simp
  qed
  show "s1 @ ''-'' @ u1 @ ''.zip'' \<noteq> s2 @ ''-'' @ u2 @ ''.zip''"
  proof
    assume "s1 @ ''-'' @ u1 @ ''.zip'' = s2 @ ''-'' @ u2 @ ''.zip''"
    moreover have "length (''-'' @ u1 @ ''.zip'') = length (''-'' @ u2 @ ''.zip'')"
      using assms(1) by simp
    ultimately have "''-'' @ u1 @ ''.zip'' = ''-'' @ u2 @ ''.zip''" by (rule suffix_eq[rotated])
    with assms(2) show False by simp
  qed
qed

lemma name_not_zip:
  assumes "is_uuid u1"
  shows "s1 @ ''-'' @ u1 \<noteq> s2 @ ''-'' @ u2 @ ''.zip''"
proof
  assume eq: "s1 @ ''-'' @ u1 = s2 @ ''-'' @ u2 @ ''.zip''"
  from assms have ne: "u1 \<noteq> []" using is_uuid_length by fastforce
  have "last (s1 @ ''-'' @ u1) = last (s2 @ ''-'' @ u2 @ ''.zip'')"
    using eq by (rule arg_cong)
  moreover have "last (s1 @ ''-'' @ u1) = last u1" using ne by simp
  moreover have "last (s2 @ ''-'' @ u2 @ ''.zip'') = CHR ''p''" by simp
  ultimately have "last u1 = CHR ''p''" by metis
  with is_uuid_last[OF assms] show False by simp
qed

lemma paths_distinct:
  assumes "is_uuid u1" and "is_uuid u2" and "u1 \<noteq> u2"
  shows "appDir_of d1 s1 u1 \<noteq> appDir_of d2 s2 u2"
    and "zipPath_of d1 s1 u1 \<noteq> zipPath_of d2 s2 u2"
    and "appDir_of d1 s1 u1 \<noteq> zipPath_of d2 s2 u2"
    and "zipPath_of d1 s1 u1 \<noteq> appDir_of d2 s2 u2"
proof -
  have len: "length u1 = length u2" using assms(1,2) by (simp add: is_uuid_length)
  have split: "\<And>a b x y. (a @ [''generated-apps'', x] = b @ [''generated-apps'', y]) \<Longrightarrow> x = y"
    by simp
  show "appDir_of d1 s1 u1 \<noteq> appDir_of d2 s2 u2"
    unfolding appDir_of_def path_join_def using names_distinct(1)[OF len assms(3)] split by blast
  show "zipPath_of d1 s1 u1 \<noteq> zipPath_of d2 s2 u2"
    unfolding zipPath_of_def path_join_def using names_distinct(2)[OF len assms(3)] split by blast
  show "appDir_of d1 s1 u1 \<noteq> zipPath_of d2 s2 u2"
    unfolding appDir_of_def zipPath_of_def path_join_def using name_not_zip[OF assms(1)] split by blast
  show "zipPath_of d1 s1 u1 \<noteq> appDir_of d2 s2 u2"
    unfolding appDir_of_def zipPath_of_def path_join_def
    using name_not_zip[OF assms(2), of s2 s1 u1] split by metis
qed

lemma calls_archive:
  "Archive s z \<in> set (calls e req w) \<Longrightarrow>
     s = appDir_of (dirname e) (sanitizeFilename e (the (appName req))) (uuidv4 e) \<and>
     z = zipPath_of (dirname e) (sanitizeFilename e (the (appName req))) (uuidv4 e)"
proof -
  let ?d = "appDir_of (dirname e) (sanitizeFilename e (the (appName req))) (uuidv4 e)"
  let ?z = "zipPath_of (dirname e) (sanitizeFilename e (the (appName req))) (uuidv4 e)"
  let ?P = "\<lambda>ev. \<forall>s z. ev = Archive s z \<longrightarrow> s = ?d \<and> z = ?z"
  have "emits ?P (try_body e req)" by (rule emits_try_body) auto
  then have "list_all ?P (calls e req w)" by (rule calls_all) simp
  then show "Archive s z \<in> set (calls e req w) \<Longrightarrow> s = ?d \<and> z = ?z"
    by (auto simp: list_all_iff)
qed

lemma calls_ensureDir:
  "EnsureDir p \<in> set (calls e req w) \<Longrightarrow>
     p = appDir_of (dirname e) (sanitizeFilename e (the (appName req))) (uuidv4 e)"
proof -
  let ?d = "appDir_of (dirname e) (sanitizeFilename e (the (appName req))) (uuidv4 e)"
  let ?P = "\<lambda>ev. \<forall>p. ev = EnsureDir p \<longrightarrow> p = ?d"
  have "emits ?P (try_body e req)" by (rule emits_try_body) auto
  then have "list_all ?P (calls e req w)" by (rule calls_all) simp
  then show "EnsureDir p \<in> set (calls e req w) \<Longrightarrow> p = ?d"
    by (auto simp: list_all_iff)
qed

subsection \<open>The stages of the pipeline\<close>

lemma emitsD:
  "emits P m \<Longrightarrow> m w = (r, w') \<Longrightarrow> \<exists>xs. log w' = log w @ xs \<and> list_all P xs"
  unfolding emits_def by (metis snd_conv)

lemma mkdirs_is_file: "is_file (mkdirs ps m q) = is_file (m q)"
  unfolding mkdirs_def by (induction ps arbitrary: m) auto

lemma mkdirs_below: "q \<notin> set ps \<Longrightarrow> mkdirs ps m q = m q"
  unfolding mkdirs_def by (induction ps arbitrary: m) auto

lemma mkdirs_cases: "mkdirs ps m q = m q \<or> (m q = None \<and> mkdirs ps m q = Some Dir)"
proof (induction ps arbitrary: m)
  case Nil
  then show ?case by (simp add: mkdirs_def)
next
  case (Cons p ps)
  have step: "mkdirs (p # ps) m = mkdirs ps (if m p = None then m(p \<mapsto> Dir) else m)"
    by (simp add: mkdirs_def)
  from Cons.IH[of "if m p = None then m(p \<mapsto> Dir) else m"] show ?case
    unfolding step by (auto split: if_splits)
qed

lemma ensureDir_cases:
  "\<exists>r w'. ensureDir e p w = (r, w') \<and> log w' = log w @ [EnsureDir p] \<and>
     (fs w' = fs w \<or> fs w' = mkdirs (prefixes p) (fs w))"
  by (auto simp: ensureDir_def bind_def call_def Let_def split: option.splits)

lemma ensureDir_Inr:
  "ensureDir e p w = (Inr x, w') \<Longrightarrow>
     fs w' = mkdirs (prefixes p) (fs w) \<and> \<not> list_ex (\<lambda>q. is_file (fs w q)) (prefixes p)"
  by (auto simp: ensureDir_def bind_def call_def Let_def split: option.splits if_splits)

lemma capture_Inr: "capture e url w = (Inr c, w') \<Longrightarrow> c = rendered e url \<and> fs w' = fs w"
  by (auto simp: capture_def bind_def call_def Let_def split: option.splits)

lemma capture_goto_fails:
  assumes "throws e (Goto url \<lparr>waitUntil = ''networkidle0'', timeout = 60000\<rparr>) = Some err"
  shows "\<exists>err' w' xs. capture e url w = (Inl err', w') \<and> fs w' = fs w \<and> log w' = log w @ xs \<and>
           set xs \<subseteq> {Launch launch_args, NewPage,
                      Goto url \<lparr>waitUntil = ''networkidle0'', timeout = 60000\<rparr>}"
  using assms by (auto simp: capture_def bind_def call_def Let_def split: option.splits)

text \<open>
  C5. When the navigation fails (timeout or unreachable URL), the handler makes no
  \<^verbatim>\<open>writeFile\<close>, \<^verbatim>\<open>copyFile\<close>, archive or download call: the only change to the
  file system is directories that \<^verbatim>\<open>ensureDir\<close> created, and the answer is the 500 of the
  \<^verbatim>\<open>catch\<close> block.
\<close>

theorem C5_capture_failure_writes_nothing:
  assumes "truthy (appName req)" and "truthy (websiteUrl req)"
    and "throws e (Goto (the (websiteUrl req)) \<lparr>waitUntil = ''networkidle0'', timeout = 60000\<rparr>)
           \<noteq> None"
  shows "(\<forall>p. WriteFile p \<notin> set (calls e req w)) \<and>
         (\<forall>s d. CopyFile s d \<notin> set (calls e req w)) \<and>
         (\<forall>s z. Archive s z \<notin> set (calls e req w)) \<and>
         (\<forall>z n. Download z n \<notin> set (calls e req w)) \<and>
         (\<forall>p. fs (snd (generate_app e req w)) p = fs w p \<or>
              (fs w p = None \<and> fs (snd (generate_app e req w)) p = Some Dir)) \<and>
         fst (generate_app e req w) = \<lparr>status = 500, body = JsonError ''Internal server error''\<rparr>"
proof -
  let ?d = "appDir_of (dirname e) (sanitizeFilename e (the (appName req))) (uuidv4 e)"
  let ?url = "the (websiteUrl req)"
  let ?goto = "Goto ?url \<lparr>waitUntil = ''networkidle0'', timeout = 60000\<rparr>"
  obtain r1 w1 where A: "ensureDir e ?d w = (r1, w1)" "log w1 = log w @ [EnsureDir ?d]"
    "fs w1 = fs w \<or> fs w1 = mkdirs (prefixes ?d) (fs w)"
    using ensureDir_cases by blast
  from assms(3) obtain err where "throws e ?goto = Some err" by auto
  from capture_goto_fails[OF this, of w1] obtain err' w2 xs where
    B: "capture e ?url w1 = (Inl err', w2)" "fs w2 = fs w1" "log w2 = log w1 @ xs"
       "set xs \<subseteq> {Launch launch_args, NewPage, ?goto}"
    by blast
  have "\<exists>err'' w3 ys. try_body e req w = (Inl err'', w3) \<and> log w3 = log w @ EnsureDir ?d # ys \<and>
          set ys \<subseteq> {Launch launch_args, NewPage, ?goto} \<and>
          (fs w3 = fs w \<or> fs w3 = mkdirs (prefixes ?d) (fs w))"
  proof (cases r1)
    case (Inl err1)
    with A assms(1,2) show ?thesis by (auto simp: try_body_def Let_def bind_def)
  next
    case (Inr u)
    with A B assms(1,2) show ?thesis by (auto simp: try_body_def Let_def bind_def)
  qed
  then obtain err'' w3 ys where
    T: "try_body e req w = (Inl err'', w3)" "log w3 = log w @ EnsureDir ?d # ys"
       "set ys \<subseteq> {Launch launch_args, NewPage, ?goto}"
       "fs w3 = fs w \<or> fs w3 = mkdirs (prefixes ?d) (fs w)"
    by blast
  have G: "generate_app e req w =
      (res_json 500 ''Internal server error'',
       w3\<lparr>log := log w3 @ [ConsoleError ''Error generating app:'' err'']\<rparr>)"
    using T(1) by (simp add: generate_app_def)
  have C: "calls e req w = EnsureDir ?d # ys @ [ConsoleError ''Error generating app:'' err'']"
    using G T(2) by (simp add: calls_def)
  have F: "\<forall>p. fs (snd (generate_app e req w)) p = fs w p \<or>
              (fs w p = None \<and> fs (snd (generate_app e req w)) p = Some Dir)"
  proof
    fix p
    from T(4) show "fs (snd (generate_app e req w)) p = fs w p \<or>
              (fs w p = None \<and> fs (snd (generate_app e req w)) p = Some Dir)"
      unfolding G using mkdirs_cases[of "prefixes ?d" "fs w" p] by auto
  qed
  have R: "fst (generate_app e req w) = \<lparr>status = 500, body = JsonError ''Internal server error''\<rparr>"
    unfolding G by (simp add: res_json_def)
  have N: "(\<forall>p. WriteFile p \<notin> set (calls e req w)) \<and>
         (\<forall>s d. CopyFile s d \<notin> set (calls e req w)) \<and>
         (\<forall>s z. Archive s z \<notin> set (calls e req w)) \<and>
         (\<forall>z n. Download z n \<notin> set (calls e req w))"
    unfolding C using T(3) by auto
  from N F R show ?thesis by blast
qed

lemma writeFile_Inr:
  "writeFile e p d w = (Inr x, w') \<Longrightarrow> fs w' = (fs w)(p \<mapsto> File d)"
  by (auto simp: writeFile_def bind_def call_def Let_def split: option.splits if_splits)

lemma copyFile_Inr:
  "copyFile e s d w = (Inr x, w') \<Longrightarrow> fs w' = (fs w)(d := fs w s) \<and> is_file (fs w s)"
  by (auto simp: copyFile_def bind_def call_def Let_def split: option.splits if_splits)

lemma createZipArchive_Inr:
  "createZipArchive e s z w = (Inr x, w') \<Longrightarrow>
     (throws e (CreateWriteStream z) = None \<and>
        fs w' = (fs w)(z \<mapsto> ZipFile (archive_of (fs w) s))) \<or>
     (throws e (CreateWriteStream z) \<noteq> None \<and> fs w' = (fs w)(z := None))"
  by (auto simp: createZipArchive_def Let_def split: option.splits if_splits)

lemma createZipArchive_is_file:
  "createZipArchive e s z w = (Inr x, w') \<Longrightarrow>
     is_file (fs w' z) \<longleftrightarrow> throws e (CreateWriteStream z) = None"
  by (drule createZipArchive_Inr) auto

lemma createZipArchive_zip:
  "createZipArchive e s z w = (Inr x, w') \<Longrightarrow> is_file (fs w' z) \<Longrightarrow>
     fs w' z = Some (ZipFile (archive_of (fs w) s))"
  by (drule createZipArchive_Inr) auto

lemma download_cases:
  assumes "download e z n d w = (r, w')"
  shows "(r = Inr \<lparr>status = 200, body = Attachment n (the (fs w z))\<rparr> \<and> is_file (fs w z) \<and>
            log w' = log w @ [Download z n, Remove d, Remove z])
       \<or> (\<exists>x. r = Inr (res_json 500 ''Error sending file'') \<and>
              \<not> (headersSent e \<and> is_file (fs w z)) \<and>
              log w' = log w @ [Download z n, ConsoleError ''Error sending file:'' x,
                                Remove d, Remove z])
       \<or> (\<exists>x. r = Inr \<lparr>status = 200, body = Partial n\<rparr> \<and>
              headersSent e \<and> is_file (fs w z) \<and>
              log w' = log w @ [Download z n, ConsoleError ''Error sending file:'' x])"
  using assms
  by (auto simp: download_def remove_def Let_def split: option.splits if_splits)

lemma generateAppFiles_Inr:
  assumes "generateAppFiles e d name content url w = (Inr x, w')"
  shows "fs w' (d @ [''index.html'']) = Some (File (indexHtml name content))"
    and "\<And>q. is_file (fs w' q) \<longleftrightarrow>
           q \<in> {d @ [''index.html''], d @ [''manifest.json''], d @ [''sw.js''], d @ [''app.js''],
                 d @ [''styles.css''], d @ [''icon-192x192.png''], d @ [''icon-512x512.png'']}
           \<or> is_file (fs w q)"
proof -
  from assms obtain w1 w2 w3 w4 w5 w6 where
    s1: "writeFile e (d @ [''index.html'']) (indexHtml name content) w = (Inr (), w1)" and
    s2: "writeFile e (d @ [''manifest.json'']) (manifest name) w1 = (Inr (), w2)" and
    s3: "writeFile e (d @ [''sw.js'']) (serviceWorker name) w2 = (Inr (), w3)" and
    s4: "writeFile e (d @ [''app.js'']) appJs w3 = (Inr (), w4)" and
    s5: "writeFile e (d @ [''styles.css'']) stylesCss w4 = (Inr (), w5)" and
    s6: "copyFile e (dirname e @ [''placeholder-icon-192x192.png'']) (d @ [''icon-192x192.png'']) w5
           = (Inr (), w6)" and
    s7: "copyFile e (dirname e @ [''placeholder-icon-512x512.png'']) (d @ [''icon-512x512.png'']) w6
           = (Inr (), w')"
    unfolding generateAppFiles_def path_join_def bind_Inr_iff by auto
  note f1 = writeFile_Inr[OF s1] and f2 = writeFile_Inr[OF s2] and f3 = writeFile_Inr[OF s3]
    and f4 = writeFile_Inr[OF s4] and f5 = writeFile_Inr[OF s5]
    and f6 = copyFile_Inr[OF s6] and f7 = copyFile_Inr[OF s7]
  show "fs w' (d @ [''index.html'']) = Some (File (indexHtml name content))"
    using f1 f2 f3 f4 f5 f6 f7 by simp
  fix q
  have k1: "is_file (fs w1 q) \<longleftrightarrow> q = d @ [''index.html''] \<or> is_file (fs w q)" using f1 by simp
  have k2: "is_file (fs w2 q) \<longleftrightarrow> q = d @ [''manifest.json''] \<or> is_file (fs w1 q)" using f2 by simp
  have k3: "is_file (fs w3 q) \<longleftrightarrow> q = d @ [''sw.js''] \<or> is_file (fs w2 q)" using f3 by simp
  have k4: "is_file (fs w4 q) \<longleftrightarrow> q = d @ [''app.js''] \<or> is_file (fs w3 q)" using f4 by simp
  have k5: "is_file (fs w5 q) \<longleftrightarrow> q = d @ [''styles.css''] \<or> is_file (fs w4 q)" using f5 by simp
  have k6: "is_file (fs w6 q) \<longleftrightarrow> q = d @ [''icon-192x192.png''] \<or> is_file (fs w5 q)"
    using f6 by auto
  have k7: "is_file (fs w' q) \<longleftrightarrow> q = d @ [''icon-512x512.png''] \<or> is_file (fs w6 q)"
    using f7 by auto
  show "is_file (fs w' q) \<longleftrightarrow>
           q \<in> {d @ [''index.html''], d @ [''manifest.json''], d @ [''sw.js''], d @ [''app.js''],
                 d @ [''styles.css''], d @ [''icon-192x192.png''], d @ [''icon-512x512.png'']}
           \<or> is_file (fs w q)"
    unfolding k7 k6 k5 k4 k3 k2 k1 by auto
qed

lemma download_not_Inl: "download e z n d w \<noteq> (Inl err, w')"
  using download_cases[of e z n d w "Inl err" w'] by auto

lemma try_body_Inr:
  assumes "truthy (appName req)" and "truthy (websiteUrl req)"
    and "try_body e req w = (Inr r, w')"
  shows "\<exists>w1 w2 w3 w4 ys.
      ensureDir e (appDir_of (dirname e) (sanitizeFilename e (the (appName req))) (uuidv4 e)) w
        = (Inr (), w1) \<and>
      capture e (the (websiteUrl req)) w1 = (Inr (rendered e (the (websiteUrl req))), w2) \<and>
      generateAppFiles e (appDir_of (dirname e) (sanitizeFilename e (the (appName req))) (uuidv4 e))
        (sanitizeFilename e (the (appName req))) (rendered e (the (websiteUrl req)))
        (the (websiteUrl req)) w2 = (Inr (), w3) \<and>
      createZipArchive e (appDir_of (dirname e) (sanitizeFilename e (the (appName req))) (uuidv4 e))
        (zipPath_of (dirname e) (sanitizeFilename e (the (appName req))) (uuidv4 e)) w3
        = (Inr (), w4) \<and>
      download e (zipPath_of (dirname e) (sanitizeFilename e (the (appName req))) (uuidv4 e))
        (sanitizeFilename e (the (appName req)) @ ''.zip'')
        (appDir_of (dirname e) (sanitizeFilename e (the (appName req))) (uuidv4 e)) w4
        = (Inr r, w') \<and>
      log w4 = log w @ ys \<and> list_all (\<lambda>ev. \<not> is_error_log ev) ys"
proof -
  let ?d = "appDir_of (dirname e) (sanitizeFilename e (the (appName req))) (uuidv4 e)"
  let ?z = "zipPath_of (dirname e) (sanitizeFilename e (the (appName req))) (uuidv4 e)"
  let ?s = "sanitizeFilename e (the (appName req))"
  let ?u = "the (websiteUrl req)"
  from assms obtain w1 c w2 w3 w4 where
    A: "ensureDir e ?d w = (Inr (), w1)" and
    B: "capture e ?u w1 = (Inr c, w2)" and
    C: "generateAppFiles e ?d ?s c ?u w2 = (Inr (), w3)" and
    D: "createZipArchive e ?d ?z w3 = (Inr (), w4)" and
    E: "download e ?z (?s @ ''.zip'') ?d w4 = (Inr r, w')"
    unfolding try_body_def Let_def by (auto simp: bind_Inr_iff)
  from capture_Inr[OF B] have c: "c = rendered e ?u" by simp
  let ?Q = "\<lambda>ev. \<not> is_error_log ev"
  have "emits ?Q (ensureDir e ?d)" by (rule emits_ensureDir) simp
  from emitsD[OF this A] obtain x1 where l1: "log w1 = log w @ x1" "list_all ?Q x1" by auto
  have "emits ?Q (capture e ?u)" by (rule emits_capture) simp
  from emitsD[OF this B] obtain x2 where l2: "log w2 = log w1 @ x2" "list_all ?Q x2" by auto
  have "emits ?Q (generateAppFiles e ?d ?s c ?u)" by (rule emits_generateAppFiles) simp
  from emitsD[OF this C] obtain x3 where l3: "log w3 = log w2 @ x3" "list_all ?Q x3" by auto
  have "emits ?Q (createZipArchive e ?d ?z)" by (rule emits_createZipArchive) simp_all
  from emitsD[OF this D] obtain x4 where l4: "log w4 = log w3 @ x4" "list_all ?Q x4" by auto
  have "log w4 = log w @ (x1 @ x2 @ x3 @ x4)" "list_all ?Q (x1 @ x2 @ x3 @ x4)"
    using l1 l2 l3 l4 by simp_all
  with A B C D E c show ?thesis by blast
qed

lemma try_body_Inl:
  assumes "truthy (appName req)" and "truthy (websiteUrl req)"
    and "try_body e req w = (Inl err, w')"
  shows "\<exists>xs. log w' = log w @ xs \<and> list_all (\<lambda>ev. \<forall>z n. ev \<noteq> Download z n) xs"
proof -
  let ?d = "appDir_of (dirname e) (sanitizeFilename e (the (appName req))) (uuidv4 e)"
  let ?z = "zipPath_of (dirname e) (sanitizeFilename e (the (appName req))) (uuidv4 e)"
  let ?s = "sanitizeFilename e (the (appName req))"
  let ?u = "the (websiteUrl req)"
  let ?P = "\<lambda>ev. \<forall>z n. ev \<noteq> Download z n"
  let ?prep = "bind (ensureDir e ?d) (\<lambda>_. bind (capture e ?u) (\<lambda>c.
                 bind (generateAppFiles e ?d ?s c ?u) (\<lambda>_. createZipArchive e ?d ?z)))"
  have "emits ?P ?prep"
    by (intro emits_bind emits_ensureDir emits_capture emits_generateAppFiles
          emits_createZipArchive) auto
  moreover have "?prep w = (Inl err, w')"
    using assms unfolding try_body_def Let_def
    by (auto simp: bind_Inl_iff bind_Inr_iff download_not_Inl)
  ultimately show ?thesis by (rule emitsD)
qed

lemma successful_run:
  assumes "successful e req w"
  shows "\<exists>w1 w2 w3 :: world.
      ensureDir e (appDir_of (dirname e) (sanitizeFilename e (the (appName req))) (uuidv4 e)) w
        = (Inr (), w1) \<and>
      capture e (the (websiteUrl req)) w1 = (Inr (rendered e (the (websiteUrl req))), w2) \<and>
      generateAppFiles e (appDir_of (dirname e) (sanitizeFilename e (the (appName req))) (uuidv4 e))
        (sanitizeFilename e (the (appName req))) (rendered e (the (websiteUrl req)))
        (the (websiteUrl req)) w2 = (Inr (), w3) \<and>
      fst (generate_app e req w) =
        \<lparr>status = 200,
         body = Attachment (sanitizeFilename e (the (appName req)) @ ''.zip'')
           (ZipFile (archive_of (fs w3)
              (appDir_of (dirname e) (sanitizeFilename e (the (appName req))) (uuidv4 e))))\<rparr>"
proof -
  let ?d = "appDir_of (dirname e) (sanitizeFilename e (the (appName req))) (uuidv4 e)"
  let ?z = "zipPath_of (dirname e) (sanitizeFilename e (the (appName req))) (uuidv4 e)"
  let ?s = "sanitizeFilename e (the (appName req))"
  let ?u = "the (websiteUrl req)"
  from assms have v: "truthy (appName req)" "truthy (websiteUrl req)"
    and ok: "list_all (\<lambda>ev. \<not> is_error_log ev) (calls e req w)"
    by (auto simp: successful_def)
  obtain res w' where T: "try_body e req w = (res, w')" by (cases "try_body e req w")
  show ?thesis
  proof (cases res)
    case (Inl err)
    from try_body_Inl[OF v T[unfolded Inl]] obtain xs where "log w' = log w @ xs" by blast
    with T Inl have "calls e req w = xs @ [ConsoleError ''Error generating app:'' err]"
      by (simp add: calls_def generate_app_def)
    with ok show ?thesis by simp
  next
    case (Inr r)
    from try_body_Inr[OF v T[unfolded Inr]] obtain w1 w2 w3 w4 ys where
      A: "ensureDir e ?d w = (Inr (), w1)" and
      B: "capture e ?u w1 = (Inr (rendered e ?u), w2)" and
      C: "generateAppFiles e ?d ?s (rendered e ?u) ?u w2 = (Inr (), w3)" and
      D: "createZipArchive e ?d ?z w3 = (Inr (), w4)" and
      E: "download e ?z (?s @ ''.zip'') ?d w4 = (Inr r, w')" and
      L: "log w4 = log w @ ys"
      by blast
    have G: "generate_app e req w = (r, w')" using T Inr by (simp add: generate_app_def)
    have no_error: "\<not> (\<exists>x tl. log w' = log w4 @ Download ?z (?s @ ''.zip'')
                        # ConsoleError ''Error sending file:'' x # tl)"
    proof
      assume "\<exists>x tl. log w' = log w4 @ Download ?z (?s @ ''.zip'')
                        # ConsoleError ''Error sending file:'' x # tl"
      then obtain x tl where "log w' = log w @ ys @ Download ?z (?s @ ''.zip'')
                        # ConsoleError ''Error sending file:'' x # tl"
        using L by auto
      with G have "calls e req w = ys @ Download ?z (?s @ ''.zip'')
                        # ConsoleError ''Error sending file:'' x # tl"
        by (simp add: calls_def)
      with ok show False by simp
    qed
    from download_cases[OF E] no_error
    have r: "r = \<lparr>status = 200, body = Attachment (?s @ ''.zip'') (the (fs w4 ?z))\<rparr>"
      and f: "is_file (fs w4 ?z)"
      by auto
    from createZipArchive_zip[OF D f] r
    have "r = \<lparr>status = 200, body = Attachment (?s @ ''.zip'') (ZipFile (archive_of (fs w3) ?d))\<rparr>"
      by simp
    with G have R: "fst (generate_app e req w) =
        \<lparr>status = 200, body = Attachment (?s @ ''.zip'') (ZipFile (archive_of (fs w3) ?d))\<rparr>"
      by simp
    show ?thesis
      apply (rule exI[where x = w1], rule exI[where x = w2], rule exI[where x = w3])
      apply (rule conjI, rule A)
      apply (rule conjI, rule B)
      apply (rule conjI, rule C)
      apply (rule R)
      done
  qed
qed

subsection \<open>Concrete runs\<close>

lemmas run_defs = generate_app_def try_body_def bind_def call_def ensureDir_def writeFile_def
  copyFile_def remove_def generateAppFiles_def createZipArchive_def capture_def download_def
  path_join_def mkdirs_def res_json_def appDir_of_def zipPath_of_def launch_args_def calls_def
  example_env_def example_world_def example_request_def strip_reserved_def
  capture_failure_env_def send_failure_env_def aborted_send_env_def Let_def

lemma example_calls:
  "calls example_env example_request example_world =
     [EnsureDir [''srv'', ''app'', ''generated-apps'', ''My App-3f2b8c1e-5d4a-4e6f-9a7b-0c1d2e3f4a5b''],
      Launch [''--no-sandbox'', ''--disable-setuid-sandbox''], NewPage,
      Goto ''https://example.com'' \<lparr>waitUntil = ''networkidle0'', timeout = 60000\<rparr>, Content, Close,
      WriteFile [''srv'', ''app'', ''generated-apps'', ''My App-3f2b8c1e-5d4a-4e6f-9a7b-0c1d2e3f4a5b'', ''index.html''],
      WriteFile [''srv'', ''app'', ''generated-apps'', ''My App-3f2b8c1e-5d4a-4e6f-9a7b-0c1d2e3f4a5b'', ''manifest.json''],
      WriteFile [''srv'', ''app'', ''generated-apps'', ''My App-3f2b8c1e-5d4a-4e6f-9a7b-0c1d2e3f4a5b'', ''sw.js''],
      WriteFile [''srv'', ''app'', ''generated-apps'', ''My App-3f2b8c1e-5d4a-4e6f-9a7b-0c1d2e3f4a5b'', ''app.js''],
      WriteFile [''srv'', ''app'', ''generated-apps'', ''My App-3f2b8c1e-5d4a-4e6f-9a7b-0c1d2e3f4a5b'', ''styles.css''],
      CopyFile [''srv'', ''app'', ''placeholder-icon-192x192.png'']
               [''srv'', ''app'', ''generated-apps'', ''My App-3f2b8c1e-5d4a-4e6f-9a7b-0c1d2e3f4a5b'', ''icon-192x192.png''],
      CopyFile [''srv'', ''app'', ''placeholder-icon-512x512.png'']
               [''srv'', ''app'', ''generated-apps'', ''My App-3f2b8c1e-5d4a-4e6f-9a7b-0c1d2e3f4a5b'', ''icon-512x512.png''],
      CreateWriteStream
        [''srv'', ''app'', ''generated-apps'', ''My App-3f2b8c1e-5d4a-4e6f-9a7b-0c1d2e3f4a5b.zip''],
      Archive [''srv'', ''app'', ''generated-apps'', ''My App-3f2b8c1e-5d4a-4e6f-9a7b-0c1d2e3f4a5b'']
              [''srv'', ''app'', ''generated-apps'', ''My App-3f2b8c1e-5d4a-4e6f-9a7b-0c1d2e3f4a5b.zip''],
      Download [''srv'', ''app'', ''generated-apps'', ''My App-3f2b8c1e-5d4a-4e6f-9a7b-0c1d2e3f4a5b.zip''] ''My App.zip'',
      Remove [''srv'', ''app'', ''generated-apps'', ''My App-3f2b8c1e-5d4a-4e6f-9a7b-0c1d2e3f4a5b''],
      Remove [''srv'', ''app'', ''generated-apps'', ''My App-3f2b8c1e-5d4a-4e6f-9a7b-0c1d2e3f4a5b.zip'']]"
  by (simp add: run_defs)

lemma example_successful: "successful example_env example_request example_world"
  by (simp add: successful_def example_calls) (simp add: example_request_def)

lemma capture_failure_calls:
  "calls capture_failure_env example_request example_world =
     [EnsureDir [''srv'', ''app'', ''generated-apps'', ''My App-3f2b8c1e-5d4a-4e6f-9a7b-0c1d2e3f4a5b''],
      Launch [''--no-sandbox'', ''--disable-setuid-sandbox''], NewPage,
      Goto ''https://example.com'' \<lparr>waitUntil = ''networkidle0'', timeout = 60000\<rparr>,
      ConsoleError ''Error generating app:'' NavigationError]"
  by (simp add: run_defs)

text \<open>
  C1. Removal on every exit path does not hold of the handler: both \<^verbatim>\<open>fs.remove\<close> calls
  sit in the download callback, and the \<^verbatim>\<open>catch\<close> block only answers 500. In the run
  below the navigation fails after the workspace was created; the response is complete
  and the workspace directory, absent before the request, is still on disk.
\<close>

theorem C1_workspace_left_behind:
  "fst (generate_app capture_failure_env example_request example_world)
     = \<lparr>status = 500, body = JsonError ''Internal server error''\<rparr>
   \<and> fs (snd (generate_app capture_failure_env example_request example_world))
        [''srv'', ''app'', ''generated-apps'', ''My App-3f2b8c1e-5d4a-4e6f-9a7b-0c1d2e3f4a5b'']
     = Some Dir
   \<and> fs example_world
        [''srv'', ''app'', ''generated-apps'', ''My App-3f2b8c1e-5d4a-4e6f-9a7b-0c1d2e3f4a5b'']
     = None
   \<and> (\<forall>p. Remove p \<notin> set (calls capture_failure_env example_request example_world))"
  by (simp add: capture_failure_calls) (simp add: run_defs)

text \<open>
  C2, as stated, fails: the name \<^verbatim>\<open>/\<close> is sanitized to the empty string, and the request
  is answered 200 after \<^verbatim>\<open>ensureDir\<close> was called on the directory named by a hyphen and
  the token alone.
\<close>

theorem C2_empty_token_counterexample:
  "sanitizeFilename example_env ''/'' = []
   \<and> status (fst (generate_app example_env
        \<lparr>appName = Some ''/'', websiteUrl = Some ''https://example.com''\<rparr> example_world)) = 200
   \<and> hd (calls example_env \<lparr>appName = Some ''/'', websiteUrl = Some ''https://example.com''\<rparr>
        example_world)
     = EnsureDir [''srv'', ''app'', ''generated-apps'', ''-3f2b8c1e-5d4a-4e6f-9a7b-0c1d2e3f4a5b'']"
  by (simp add: run_defs)

text \<open>
  C3, as stated, fails for a failure while sending. When the send fails before the headers
  are out, the download callback answers 500 with its own message; when it breaks off
  after they are out, the caller keeps the status 200 already sent.
\<close>

theorem C3_send_failure_counterexample:
  "fst (generate_app send_failure_env example_request example_world)
     = \<lparr>status = 500, body = JsonError ''Error sending file''\<rparr>
   \<and> ''Error sending file'' \<noteq> ''Internal server error''
   \<and> fst (generate_app aborted_send_env example_request example_world)
     = \<lparr>status = 200, body = Partial ''My App.zip''\<rparr>"
  by (simp add: run_defs)

subsection \<open>Failures and their responses\<close>

text \<open>
  C4. A request in which \<open>appName\<close> or \<open>websiteUrl\<close> is absent or empty is answered with
  status 400 and the body \<^verbatim>\<open>{"error": "Missing required fields"}\<close>; the world is returned as
  it was: no directory is created and no library call is made.
\<close>

theorem C4_missing_fields:
  "appName req = None \<or> appName req = Some [] \<or> websiteUrl req = None \<or> websiteUrl req = Some []
   \<Longrightarrow> generate_app e req w =
         (\<lparr>status = 400, body = JsonError ''Missing required fields''\<rparr>, w)"
  by (auto simp: generate_app_def try_body_def res_json_def)

theorem C4_missing_fields_witness:
  "appName \<lparr>appName = Some [], websiteUrl = Some ''https://example.com''\<rparr> = Some []
   \<and> generate_app example_env \<lparr>appName = Some [], websiteUrl = Some ''https://example.com''\<rparr>
         example_world
       = (\<lparr>status = 400, body = JsonError ''Missing required fields''\<rparr>, example_world)"
  using C4_missing_fields
    [of "\<lparr>appName = Some [], websiteUrl = Some ''https://example.com''\<rparr>" example_env example_world]
  by simp

lemma capture_log_start:
  "\<exists>ys. log (snd (capture e url w)) = log w @ Launch launch_args # ys"
  by (auto simp: capture_def bind_def call_def Let_def split: option.splits)

lemma calls_start_launch:
  assumes "truthy (appName req)" and "truthy (websiteUrl req)"
    and "ensureDir e (appDir_of (dirname e) (sanitizeFilename e (the (appName req))) (uuidv4 e)) w
           = (Inr x, w1)"
  shows "\<exists>rest. calls e req w =
     EnsureDir (appDir_of (dirname e) (sanitizeFilename e (the (appName req))) (uuidv4 e))
       # Launch launch_args # rest"
proof -
  let ?d = "appDir_of (dirname e) (sanitizeFilename e (the (appName req))) (uuidv4 e)"
  let ?u = "the (websiteUrl req)"
  have l1: "log w1 = log w @ [EnsureDir ?d]" using log_ensureDir[of e ?d w] assms(3) by simp
  obtain ys where l2: "log (snd (capture e ?u w1)) = log w1 @ Launch launch_args # ys"
    using capture_log_start by blast
  have "\<exists>zs. log (snd (try_body e req w)) = log (snd (capture e ?u w1)) @ zs"
    using assms unfolding try_body_def Let_def
    by (simp add: bind_def[of "ensureDir e ?d"], intro bind_log_extends)
       (auto intro!: emits_bind emits_generateAppFiles emits_createZipArchive emits_download)
  then obtain zs where "log (snd (try_body e req w)) = log w @ EnsureDir ?d # Launch launch_args # ys @ zs"
    using l1 l2 by auto
  then show ?thesis
    by (cases "try_body e req w") (auto simp: calls_def generate_app_def split: sum.splits)
qed

text \<open>
  C2, amended. The handler has no check on the sanitized name. For a request whose
  \<open>appName\<close> is non-empty and sanitizes to the empty string, its first call is
  \<^verbatim>\<open>ensureDir\<close> on \<^verbatim>\<open>generated-apps/-<token>\<close>; when that call succeeds, the
  browser launch follows.
\<close>

theorem C2_empty_token_allocates:
  assumes "truthy (appName req)" and "truthy (websiteUrl req)"
    and "sanitizeFilename e (the (appName req)) = []"
  shows "(\<exists>rest. calls e req w =
            EnsureDir (dirname e @ [''generated-apps'', ''-'' @ uuidv4 e]) # rest) \<and>
         (throws e (EnsureDir (dirname e @ [''generated-apps'', ''-'' @ uuidv4 e])) = None \<and>
          \<not> list_ex (\<lambda>q. is_file (fs w q)) (prefixes (dirname e @ [''generated-apps'', ''-'' @ uuidv4 e]))
          \<longrightarrow> (\<exists>rest. calls e req w =
                  EnsureDir (dirname e @ [''generated-apps'', ''-'' @ uuidv4 e])
                    # Launch launch_args # rest))"
proof -
  let ?d = "dirname e @ [''generated-apps'', ''-'' @ uuidv4 e]"
  have d: "appDir_of (dirname e) (sanitizeFilename e (the (appName req))) (uuidv4 e) = ?d"
    using assms(3) by (simp add: appDir_of_def path_join_def)
  have one: "\<exists>rest. calls e req w = EnsureDir ?d # rest"
    using calls_start[OF assms(1,2), of e w] unfolding d .
  have two: "\<exists>rest. calls e req w = EnsureDir ?d # Launch launch_args # rest"
    if "throws e (EnsureDir ?d) = None" and "\<not> list_ex (\<lambda>q. is_file (fs w q)) (prefixes ?d)"
  proof -
    from that obtain w1 where "ensureDir e ?d w = (Inr (), w1)"
      by (auto simp: ensureDir_def bind_def call_def Let_def)
    then show ?thesis using calls_start_launch[OF assms(1,2), of e w "()" w1] unfolding d by simp
  qed
  from one two show ?thesis by blast
qed

theorem C2_empty_token_allocates_witness:
  "truthy (appName \<lparr>appName = Some ''/'', websiteUrl = Some ''https://example.com''\<rparr>) \<and>
   truthy (websiteUrl \<lparr>appName = Some ''/'', websiteUrl = Some ''https://example.com''\<rparr>) \<and>
   sanitizeFilename example_env
     (the (appName \<lparr>appName = Some ''/'', websiteUrl = Some ''https://example.com''\<rparr>)) = [] \<and>
   (\<exists>rest. calls example_env \<lparr>appName = Some ''/'', websiteUrl = Some ''https://example.com''\<rparr>
              example_world =
            EnsureDir (dirname example_env @ [''generated-apps'', ''-'' @ uuidv4 example_env]) # rest)"
  using C2_empty_token_allocates
    [of "\<lparr>appName = Some ''/'', websiteUrl = Some ''https://example.com''\<rparr>" example_env example_world]
  by (simp add: example_env_def strip_reserved_def)

text \<open>
  C3, amended. For a request with both fields present that does not succeed:
  \<^item> if the handler never reached \<^verbatim>\<open>res.download\<close> (workspace creation, capture,
    synthesis or the archiver failed), the response is 500 with
    \<^verbatim>\<open>{"error": "Internal server error"}\<close>;
  \<^item> if it reached \<^verbatim>\<open>res.download\<close> and the send failed after the headers went out (which
    needs the zip on disk, so the write stream had not failed), the caller keeps status 200
    with the body cut short;
  \<^item> if it reached \<^verbatim>\<open>res.download\<close> and the send failed otherwise, the response is 500
    with \<^verbatim>\<open>{"error": "Error sending file"}\<close>.
\<close>

theorem C3_failure_responses:
  assumes "truthy (appName req)" and "truthy (websiteUrl req)"
    and "\<not> successful e req w"
  shows "((\<forall>z n. Download z n \<notin> set (calls e req w)) \<longrightarrow>
            fst (generate_app e req w) = \<lparr>status = 500, body = JsonError ''Internal server error''\<rparr>) \<and>
         ((\<exists>z n. Download z n \<in> set (calls e req w)) \<longrightarrow>
            fst (generate_app e req w) =
              (if headersSent e \<and>
                  throws e (CreateWriteStream
                    (zipPath_of (dirname e) (sanitizeFilename e (the (appName req))) (uuidv4 e))) = None
               then \<lparr>status = 200, body = Partial (sanitizeFilename e (the (appName req)) @ ''.zip'')\<rparr>
               else \<lparr>status = 500, body = JsonError ''Error sending file''\<rparr>))"
proof -
  obtain res w' where T: "try_body e req w = (res, w')" by (cases "try_body e req w")
  show ?thesis
  proof (cases res)
    case (Inl err)
    from try_body_Inl[OF assms(1,2) T[unfolded Inl]] obtain xs where
      xs: "log w' = log w @ xs" "list_all (\<lambda>ev. \<forall>z n. ev \<noteq> Download z n) xs" by blast
    from T Inl xs(1) have "calls e req w = xs @ [ConsoleError ''Error generating app:'' err]"
      by (simp add: calls_def generate_app_def)
    with xs(2) have "\<forall>z n. Download z n \<notin> set (calls e req w)" by (auto simp: list_all_iff)
    moreover from T Inl have "fst (generate_app e req w) = res_json 500 ''Internal server error''"
      by (simp add: generate_app_def)
    ultimately show ?thesis by (simp add: res_json_def)
  next
    case (Inr r)
    let ?d = "appDir_of (dirname e) (sanitizeFilename e (the (appName req))) (uuidv4 e)"
    let ?z = "zipPath_of (dirname e) (sanitizeFilename e (the (appName req))) (uuidv4 e)"
    let ?n = "sanitizeFilename e (the (appName req)) @ ''.zip''"
    from try_body_Inr[OF assms(1,2) T[unfolded Inr]] obtain w3 w4 ys where
      D: "createZipArchive e ?d ?z w3 = (Inr (), w4)" and
      E: "download e ?z ?n ?d w4 = (Inr r, w')" and
      L: "log w4 = log w @ ys" and Q: "list_all (\<lambda>ev. \<not> is_error_log ev) ys"
      by blast
    have G: "generate_app e req w = (r, w')" using T Inr by (simp add: generate_app_def)
    have zip: "is_file (fs w4 ?z) \<longleftrightarrow> throws e (CreateWriteStream ?z) = None"
      using D by (rule createZipArchive_is_file)
    have not_ok: "log w' \<noteq> log w4 @ [Download ?z ?n, Remove ?d, Remove ?z]"
    proof
      assume "log w' = log w4 @ [Download ?z ?n, Remove ?d, Remove ?z]"
      with G L have "calls e req w = ys @ [Download ?z ?n, Remove ?d, Remove ?z]"
        by (simp add: calls_def)
      with Q assms(1,2) have "successful e req w" by (simp add: successful_def)
      with assms(3) show False by simp
    qed
    have reached: "Download ?z ?n \<in> set (calls e req w)"
      using download_cases[OF E] G L by (auto simp: calls_def)
    have resp: "r = (if headersSent e \<and> throws e (CreateWriteStream ?z) = None
               then \<lparr>status = 200, body = Partial ?n\<rparr>
               else \<lparr>status = 500, body = JsonError ''Error sending file''\<rparr>)"
      using download_cases[OF E] not_ok zip by (auto simp: res_json_def)
    from reached resp G show ?thesis by auto
  qed
qed

theorem C3_failure_responses_witness:
  "truthy (appName example_request) \<and> truthy (websiteUrl example_request) \<and>
   \<not> successful capture_failure_env example_request example_world \<and>
   (\<forall>z n. Download z n \<notin> set (calls capture_failure_env example_request example_world)) \<and>
   fst (generate_app capture_failure_env example_request example_world)
     = \<lparr>status = 500, body = JsonError ''Internal server error''\<rparr>"
proof -
  have s: "\<not> successful capture_failure_env example_request example_world"
    by (simp add: successful_def capture_failure_calls)
  have v: "truthy (appName example_request)" "truthy (websiteUrl example_request)"
    by (simp_all add: example_request_def)
  from C3_failure_responses[OF v s] s v show ?thesis
    by (simp add: capture_failure_calls)
qed

subsection \<open>The successful run\<close>

lemma seven_card:
  "card ({[''index.html''], [''manifest.json''], [''sw.js''], [''app.js''], [''styles.css''],
         [''icon-192x192.png''], [''icon-512x512.png'']} :: path set) = 7"
  by simp

lemma below_seven:
  "d @ rel \<in> {d @ [''index.html''], d @ [''manifest.json''], d @ [''sw.js''], d @ [''app.js''],
               d @ [''styles.css''], d @ [''icon-192x192.png''], d @ [''icon-512x512.png'']}
   \<longleftrightarrow> rel \<in> {[''index.html''], [''manifest.json''], [''sw.js''], [''app.js''], [''styles.css''],
             [''icon-192x192.png''], [''icon-512x512.png'']}"
  by (simp only: insert_iff empty_iff same_append_eq)


lemma successful_archive:
  assumes "successful e req w"
  shows "\<exists>w3 :: world. fst (generate_app e req w) =
           \<lparr>status = 200,
            body = Attachment (sanitizeFilename e (the (appName req)) @ ''.zip'')
              (ZipFile (archive_of (fs w3)
                 (appDir_of (dirname e) (sanitizeFilename e (the (appName req))) (uuidv4 e))))\<rparr> \<and>
         fs w3 (appDir_of (dirname e) (sanitizeFilename e (the (appName req))) (uuidv4 e)
                  @ [''index.html''])
           = Some (File (indexHtml (sanitizeFilename e (the (appName req)))
                           (rendered e (the (websiteUrl req))))) \<and>
         (\<forall>rel. is_file (fs w3 (appDir_of (dirname e) (sanitizeFilename e (the (appName req)))
                                  (uuidv4 e) @ rel)) \<longleftrightarrow>
            rel \<in> {[''index.html''], [''manifest.json''], [''sw.js''], [''app.js''], [''styles.css''],
                    [''icon-192x192.png''], [''icon-512x512.png'']} \<or>
            is_file (fs w (appDir_of (dirname e) (sanitizeFilename e (the (appName req)))
                             (uuidv4 e) @ rel)))"
proof -
  let ?d = "appDir_of (dirname e) (sanitizeFilename e (the (appName req))) (uuidv4 e)"
  let ?z = "zipPath_of (dirname e) (sanitizeFilename e (the (appName req))) (uuidv4 e)"
  let ?s = "sanitizeFilename e (the (appName req))"
  let ?u = "the (websiteUrl req)"
  from successful_run[OF assms] obtain w1 w2 w3 :: world where
    A: "ensureDir e ?d w = (Inr (), w1)" and
    B: "capture e ?u w1 = (Inr (rendered e ?u), w2)" and
    C: "generateAppFiles e ?d ?s (rendered e ?u) ?u w2 = (Inr (), w3)" and
    r: "fst (generate_app e req w) =
          \<lparr>status = 200, body = Attachment (?s @ ''.zip'') (ZipFile (archive_of (fs w3) ?d))\<rparr>"
    by blast
  have f12: "\<And>q. is_file (fs w2 q) = is_file (fs w q)"
    using ensureDir_Inr[OF A] capture_Inr[OF B] by (simp add: mkdirs_is_file)
  have files: "\<forall>rel. is_file (fs w3 (?d @ rel)) \<longleftrightarrow>
            rel \<in> {[''index.html''], [''manifest.json''], [''sw.js''], [''app.js''], [''styles.css''],
                    [''icon-192x192.png''], [''icon-512x512.png'']} \<or> is_file (fs w (?d @ rel))"
    by (simp only: generateAppFiles_Inr(2)[OF C] f12 below_seven) simp
  have idx: "fs w3 (?d @ [''index.html'']) = Some (File (indexHtml ?s (rendered e ?u)))"
    by (rule generateAppFiles_Inr(1)[OF C])
  show ?thesis
    apply (rule exI[where x = w3])
    apply (rule conjI, rule r)
    apply (rule conjI, rule idx)
    apply (rule files)
    done
qed


lemma archive_of_dom:
  assumes "\<forall>rel. is_file (m (d @ rel)) \<longleftrightarrow> rel \<in> S" and "[] \<notin> S"
  shows "dom (archive_of m d) = S"
    and "\<forall>rel \<in> dom (archive_of m d). is_file (archive_of m d rel)"
proof -
  have in_arch: "archive_of m d rel \<noteq> None \<longleftrightarrow> rel \<in> S" for rel
  proof (cases "rel = []")
    case True
    with assms(2) show ?thesis by (simp add: archive_of_def)
  next
    case False
    from assms(1) have k: "is_file (m (d @ rel)) \<longleftrightarrow> rel \<in> S" by (rule spec)
    show ?thesis
    proof (cases "is_file (m (d @ rel))")
      case True
      then have "m (d @ rel) \<noteq> None" by (cases "m (d @ rel)") auto
      with True False k show ?thesis by (simp add: archive_of_def)
    next
      case no: False
      with False k show ?thesis by (simp add: archive_of_def)
    qed
  qed
  then show "dom (archive_of m d) = S" by (auto simp: dom_def)
  show "\<forall>rel \<in> dom (archive_of m d). is_file (archive_of m d rel)"
    by (auto simp: archive_of_def dom_def split: if_splits)
qed

text \<open>
  C6. For a successful request whose workspace path has nothing below it beforehand (the
  token is fresh), the archive sent holds exactly seven entries, all regular files:
  \<^verbatim>\<open>index.html\<close>, \<^verbatim>\<open>manifest.json\<close>, \<^verbatim>\<open>sw.js\<close>, \<^verbatim>\<open>app.js\<close>, \<^verbatim>\<open>styles.css\<close> and
  the two icons.
\<close>

theorem C6_archive_has_seven_files:
  assumes "successful e req w"
    and "\<forall>rel. rel \<noteq> [] \<longrightarrow>
           fs w (appDir_of (dirname e) (sanitizeFilename e (the (appName req))) (uuidv4 e) @ rel) = None"
  shows "\<exists>arch. body (fst (generate_app e req w)) =
                  Attachment (sanitizeFilename e (the (appName req)) @ ''.zip'') (ZipFile arch) \<and>
           dom arch = {[''index.html''], [''manifest.json''], [''sw.js''], [''app.js''], [''styles.css''],
                       [''icon-192x192.png''], [''icon-512x512.png'']} \<and>
           card (dom arch) = 7 \<and>
           (\<forall>rel \<in> dom arch. is_file (arch rel))"
proof -
  let ?d = "appDir_of (dirname e) (sanitizeFilename e (the (appName req))) (uuidv4 e)"
  define seven :: "path set" where
    "seven = {[''index.html''], [''manifest.json''], [''sw.js''], [''app.js''], [''styles.css''],
              [''icon-192x192.png''], [''icon-512x512.png'']}"
  from successful_archive[OF assms(1)] obtain w3 :: world where
    r: "fst (generate_app e req w) =
          \<lparr>status = 200,
           body = Attachment (sanitizeFilename e (the (appName req)) @ ''.zip'')
                    (ZipFile (archive_of (fs w3) ?d))\<rparr>"
    and files: "\<forall>rel. is_file (fs w3 (?d @ rel)) \<longleftrightarrow> rel \<in> seven \<or> is_file (fs w (?d @ rel))"
    unfolding seven_def by blast
  have nil: "[] \<notin> seven" unfolding seven_def by simp
  have k: "\<forall>rel. is_file (fs w3 (?d @ rel)) \<longleftrightarrow> rel \<in> seven"
  proof
    fix rel
    show "is_file (fs w3 (?d @ rel)) \<longleftrightarrow> rel \<in> seven"
    proof (cases "rel = []")
      case True
      have "\<not> is_file (fs w (?d @ []))"
      proof -
        from successful_run[OF assms(1)] obtain w1 :: world where
          "ensureDir e ?d w = (Inr (), w1)" by blast
        from ensureDir_Inr[OF this] have "\<not> list_ex (\<lambda>q. is_file (fs w q)) (prefixes ?d)" by simp
        then show ?thesis by (simp add: list_ex_iff)
      qed
      with files True nil show ?thesis by blast
    next
      case False
      with assms(2) have "fs w (?d @ rel) = None" by blast
      then have "\<not> is_file (fs w (?d @ rel))" by simp
      with files show ?thesis by blast
    qed
  qed
  have d: "dom (archive_of (fs w3) ?d) = seven" using k nil by (rule archive_of_dom(1))
  have c: "card (dom (archive_of (fs w3) ?d)) = 7"
    unfolding d seven_def by (rule seven_card)
  have f: "\<forall>rel \<in> dom (archive_of (fs w3) ?d). is_file (archive_of (fs w3) ?d rel)"
    using k nil by (rule archive_of_dom(2))
  have b: "body (fst (generate_app e req w)) =
      Attachment (sanitizeFilename e (the (appName req)) @ ''.zip'') (ZipFile (archive_of (fs w3) ?d))"
    unfolding r by simp
  show ?thesis
    apply (rule exI[where x = "archive_of (fs w3) ?d"])
    apply (rule conjI, rule b)
    apply (rule conjI, rule d[unfolded seven_def])
    apply (rule conjI, rule c)
    apply (rule f)
    done
qed

text \<open>
  C7. The workspace directory of a request is \<^verbatim>\<open>generated-apps/<sanitized name>-<token>\<close>
  and its archive is the same path with \<^verbatim>\<open>.zip\<close> appended: these are the only paths
  the handler passes to \<^verbatim>\<open>ensureDir\<close> and to the archiver. For two requests whose tokens
  are distinct UUIDs, whatever their names, the two directories differ, the two archives
  differ, and no directory of one is the archive of the other.
\<close>

theorem C7_workspace_paths_distinct:
  assumes "truthy (appName r1)" and "truthy (websiteUrl r1)"
    and "truthy (appName r2)" and "truthy (websiteUrl r2)"
    and "is_uuid (uuidv4 e1)" and "is_uuid (uuidv4 e2)" and "uuidv4 e1 \<noteq> uuidv4 e2"
  shows "let d1 = dirname e1 @ [''generated-apps'',
                     sanitizeFilename e1 (the (appName r1)) @ ''-'' @ uuidv4 e1];
             z1 = dirname e1 @ [''generated-apps'',
                     sanitizeFilename e1 (the (appName r1)) @ ''-'' @ uuidv4 e1 @ ''.zip''];
             d2 = dirname e2 @ [''generated-apps'',
                     sanitizeFilename e2 (the (appName r2)) @ ''-'' @ uuidv4 e2];
             z2 = dirname e2 @ [''generated-apps'',
                     sanitizeFilename e2 (the (appName r2)) @ ''-'' @ uuidv4 e2 @ ''.zip'']
         in (\<exists>rest. calls e1 r1 w1 = EnsureDir d1 # rest) \<and>
            (\<exists>rest. calls e2 r2 w2 = EnsureDir d2 # rest) \<and>
            (\<forall>p. EnsureDir p \<in> set (calls e1 r1 w1) \<longrightarrow> p = d1) \<and>
            (\<forall>p. EnsureDir p \<in> set (calls e2 r2 w2) \<longrightarrow> p = d2) \<and>
            (\<forall>s z. Archive s z \<in> set (calls e1 r1 w1) \<longrightarrow> s = d1 \<and> z = z1) \<and>
            (\<forall>s z. Archive s z \<in> set (calls e2 r2 w2) \<longrightarrow> s = d2 \<and> z = z2) \<and>
            d1 \<noteq> d2 \<and> z1 \<noteq> z2 \<and> d1 \<noteq> z2 \<and> z1 \<noteq> d2"
proof -
  let ?d1 = "appDir_of (dirname e1) (sanitizeFilename e1 (the (appName r1))) (uuidv4 e1)"
  let ?z1 = "zipPath_of (dirname e1) (sanitizeFilename e1 (the (appName r1))) (uuidv4 e1)"
  let ?d2 = "appDir_of (dirname e2) (sanitizeFilename e2 (the (appName r2))) (uuidv4 e2)"
  let ?z2 = "zipPath_of (dirname e2) (sanitizeFilename e2 (the (appName r2))) (uuidv4 e2)"
  have s1: "\<exists>rest. calls e1 r1 w1 = EnsureDir ?d1 # rest" using assms(1,2) by (rule calls_start)
  have s2: "\<exists>rest. calls e2 r2 w2 = EnsureDir ?d2 # rest" using assms(3,4) by (rule calls_start)
  have a1: "\<forall>p. EnsureDir p \<in> set (calls e1 r1 w1) \<longrightarrow> p = ?d1" using calls_ensureDir by blast
  have a2: "\<forall>p. EnsureDir p \<in> set (calls e2 r2 w2) \<longrightarrow> p = ?d2" using calls_ensureDir by blast
  have b1: "\<forall>s z. Archive s z \<in> set (calls e1 r1 w1) \<longrightarrow> s = ?d1 \<and> z = ?z1"
    using calls_archive by blast
  have b2: "\<forall>s z. Archive s z \<in> set (calls e2 r2 w2) \<longrightarrow> s = ?d2 \<and> z = ?z2"
    using calls_archive by blast
  note ne = paths_distinct[OF assms(5,6,7)]
  have "(\<exists>rest. calls e1 r1 w1 = EnsureDir ?d1 # rest) \<and>
        (\<exists>rest. calls e2 r2 w2 = EnsureDir ?d2 # rest) \<and>
        (\<forall>p. EnsureDir p \<in> set (calls e1 r1 w1) \<longrightarrow> p = ?d1) \<and>
        (\<forall>p. EnsureDir p \<in> set (calls e2 r2 w2) \<longrightarrow> p = ?d2) \<and>
        (\<forall>s z. Archive s z \<in> set (calls e1 r1 w1) \<longrightarrow> s = ?d1 \<and> z = ?z1) \<and>
        (\<forall>s z. Archive s z \<in> set (calls e2 r2 w2) \<longrightarrow> s = ?d2 \<and> z = ?z2) \<and>
        ?d1 \<noteq> ?d2 \<and> ?z1 \<noteq> ?z2 \<and> ?d1 \<noteq> ?z2 \<and> ?z1 \<noteq> ?d2"
    by (intro conjI s1 s2 a1 a2 b1 b2 ne)
  then show ?thesis
    unfolding Let_def appDir_of_def zipPath_of_def path_join_def .
qed

lemma indexHtml_shape:
  \<open>\<exists>pre post.
     (\<forall>content. indexHtml name content =
        pre @ ''<div id="app-content">'' @ ''\<newline>      '' @ content @ ''\<newline>    </div>'' @ post) \<and>
     sublist ''<link rel="manifest" href="manifest.json">'' pre \<and>
     sublist ''<link rel="stylesheet" href="styles.css">'' pre \<and>
     sublist ''<script src="app.js"></script>'' post\<close>
proof -
  define head1 :: string where \<open>head1 = concat [
    ''\<newline>'',
    ''<!DOCTYPE html>\<newline>'',
    ''<html lang="en">\<newline>'',
    ''<head>\<newline>'',
    ''    <meta charset="UTF-8">\<newline>'',
    ''    <meta name="viewport" content="width=device-width, initial-scale=1.0">\<newline>'',
    ''    <title>'']\<close>
  define link1 :: string where \<open>link1 = ''<link rel="manifest" href="manifest.json">''\<close>
  define link2 :: string where \<open>link2 = ''<link rel="stylesheet" href="styles.css">''\<close>
  define script :: string where \<open>script = ''<script src="app.js"></script>''\<close>
  define mid :: string where \<open>mid = ''\<newline>    <meta name="theme-color" content="#000000">\<newline>    ''\<close>
  define pre where \<open>pre = head1 @ name @ ''</title>\<newline>    '' @ link1 @ mid @ link2
      @ ''\<newline></head>\<newline><body>\<newline>    ''\<close>
  define post where \<open>post = ''\<newline>    '' @ script @ ''\<newline></body>\<newline></html>''\<close>
  have eq: \<open>\<forall>content. indexHtml name content =
        pre @ ''<div id="app-content">'' @ ''\<newline>      '' @ content @ ''\<newline>    </div>'' @ post\<close>
    by (simp add: indexHtml_def pre_def post_def head1_def link1_def link2_def script_def mid_def)
  have m: "sublist link1 pre"
  proof -
    have \<open>pre = (head1 @ name @ ''</title>\<newline>    '') @ link1
        @ (mid @ link2 @ ''\<newline></head>\<newline><body>\<newline>    '')\<close>
      unfolding pre_def by (simp only: append_assoc)
    then show ?thesis by (simp only: sublist_appendI)
  qed
  have s: "sublist link2 pre"
  proof -
    have \<open>pre = (head1 @ name @ ''</title>\<newline>    '' @ link1 @ mid) @ link2
        @ ''\<newline></head>\<newline><body>\<newline>    ''\<close>
      unfolding pre_def by (simp only: append_assoc)
    then show ?thesis by (simp only: sublist_appendI)
  qed
  have j: "sublist script post"
    unfolding post_def by (rule sublist_appendI)
  from eq m s j show ?thesis unfolding link1_def link2_def script_def by blast
qed

text \<open>
  C8. For a successful request, the \<^verbatim>\<open>index.html\<close> entry of the archive sent is the
  serialized page, unchanged, between the opening and the closing tag of the
  \<^verbatim>\<open>app-content\<close> container; the text before it links the manifest and the stylesheet,
  the text after it loads \<^verbatim>\<open>app.js\<close>.
\<close>

theorem C8_markup_embeds_content:
  assumes \<open>successful e req w\<close>
  shows \<open>\<exists>arch pre post.
     body (fst (generate_app e req w)) =
       Attachment (sanitizeFilename e (the (appName req)) @ ''.zip'') (ZipFile arch) \<and>
     arch [''index.html''] =
       Some (File (pre @ ''<div id="app-content">'' @ ''\<newline>      ''
                   @ rendered e (the (websiteUrl req))
                   @ ''\<newline>    </div>'' @ post)) \<and>
     sublist ''<link rel="manifest" href="manifest.json">'' pre \<and>
     sublist ''<link rel="stylesheet" href="styles.css">'' pre \<and>
     sublist ''<script src="app.js"></script>'' post\<close>
proof -
  let ?d = "appDir_of (dirname e) (sanitizeFilename e (the (appName req))) (uuidv4 e)"
  let ?s = "sanitizeFilename e (the (appName req))"
  from successful_archive[OF assms] obtain w3 :: world where
    r: "fst (generate_app e req w) =
          \<lparr>status = 200, body = Attachment (?s @ ''.zip'') (ZipFile (archive_of (fs w3) ?d))\<rparr>"
    and idx: "fs w3 (?d @ [''index.html'']) =
                Some (File (indexHtml ?s (rendered e (the (websiteUrl req)))))"
    by blast
  have a: "archive_of (fs w3) ?d [''index.html''] =
             Some (File (indexHtml ?s (rendered e (the (websiteUrl req)))))"
    unfolding archive_of_def idx by simp
  have b: "body (fst (generate_app e req w)) =
             Attachment (?s @ ''.zip'') (ZipFile (archive_of (fs w3) ?d))"
    unfolding r by simp
  from indexHtml_shape[of ?s] a b show ?thesis by metis
qed

lemma generateAppFiles_fs:
  assumes "generateAppFiles e d name content url w = (Inr x, w')"
    and "d = dirname e @ [g, nm]"
  shows "fs w' = (fs w)
           (d @ [''index.html''] := Some (File (indexHtml name content)),
            d @ [''manifest.json''] := Some (File (manifest name)),
            d @ [''sw.js''] := Some (File (serviceWorker name)),
            d @ [''app.js''] := Some (File appJs),
            d @ [''styles.css''] := Some (File stylesCss),
            d @ [''icon-192x192.png''] := fs w (dirname e @ [''placeholder-icon-192x192.png'']),
            d @ [''icon-512x512.png''] := fs w (dirname e @ [''placeholder-icon-512x512.png'']))"
    and "is_file (fs w (dirname e @ [''placeholder-icon-192x192.png'']))"
    and "is_file (fs w (dirname e @ [''placeholder-icon-512x512.png'']))"
proof -
  let ?p1 = "dirname e @ [''placeholder-icon-192x192.png'']"
  let ?p2 = "dirname e @ [''placeholder-icon-512x512.png'']"
  from assms(1) obtain w1 w2 w3 w4 w5 w6 where
    s1: "writeFile e (d @ [''index.html'']) (indexHtml name content) w = (Inr (), w1)" and
    s2: "writeFile e (d @ [''manifest.json'']) (manifest name) w1 = (Inr (), w2)" and
    s3: "writeFile e (d @ [''sw.js'']) (serviceWorker name) w2 = (Inr (), w3)" and
    s4: "writeFile e (d @ [''app.js'']) appJs w3 = (Inr (), w4)" and
    s5: "writeFile e (d @ [''styles.css'']) stylesCss w4 = (Inr (), w5)" and
    s6: "copyFile e ?p1 (d @ [''icon-192x192.png'']) w5 = (Inr (), w6)" and
    s7: "copyFile e ?p2 (d @ [''icon-512x512.png'']) w6 = (Inr (), w')"
    unfolding generateAppFiles_def path_join_def bind_Inr_iff by auto
  note f1 = writeFile_Inr[OF s1] and f2 = writeFile_Inr[OF s2] and f3 = writeFile_Inr[OF s3]
    and f4 = writeFile_Inr[OF s4] and f5 = writeFile_Inr[OF s5]
    and f6 = copyFile_Inr[OF s6] and f7 = copyFile_Inr[OF s7]
  have other: "p \<noteq> d @ [y]" if "p = dirname e @ [q]" for p q y
    using that assms(2) by simp
  have k5: "fs w5 p = fs w p" if "p = dirname e @ [q]" for p q
    using other[OF that] f1 f2 f3 f4 f5 by simp
  have k6: "fs w6 p = fs w p" if "p = dirname e @ [q]" for p q
    using other[OF that] k5[OF that] f6 by simp
  have v1: "fs w5 ?p1 = fs w ?p1" by (rule k5) (rule refl)
  have v2: "fs w6 ?p2 = fs w ?p2" by (rule k6) (rule refl)
  show "is_file (fs w ?p1)" using f6 v1 by simp
  show "is_file (fs w ?p2)" using f7 v2 by simp
  show "fs w' = (fs w)
           (d @ [''index.html''] := Some (File (indexHtml name content)),
            d @ [''manifest.json''] := Some (File (manifest name)),
            d @ [''sw.js''] := Some (File (serviceWorker name)),
            d @ [''app.js''] := Some (File appJs),
            d @ [''styles.css''] := Some (File stylesCss),
            d @ [''icon-192x192.png''] := fs w ?p1,
            d @ [''icon-512x512.png''] := fs w ?p2)"
    using f1 f2 f3 f4 f5 f6 f7 v1 v2 by (simp only:)
qed

lemma same_updates:
  "m1 q = m2 q \<Longrightarrow>
     (m1(k1 := v1, k2 := v2, k3 := v3, k4 := v4, k5 := v5, k6 := v6, k7 := v7)) q
   = (m2(k1 := v1, k2 := v2, k3 := v3, k4 := v4, k5 := v5, k6 := v6, k7 := v7)) q"
  by simp

lemma archive_of_cong:
  assumes "\<And>rel. rel \<noteq> [] \<Longrightarrow> m1 (d @ rel) = m2 (d @ rel)"
  shows "archive_of m1 d = archive_of m2 d"
proof
  fix rel
  show "archive_of m1 d rel = archive_of m2 d rel"
  proof (cases "rel = []")
    case True
    then show ?thesis by (simp add: archive_of_def)
  next
    case False
    with assms[OF False] show ?thesis by (simp add: archive_of_def)
  qed
qed

text \<open>
  C9. For a successful request the response has status 200, the file name of the download
  is the sanitized application name followed by \<^verbatim>\<open>.zip\<close>, and the body is the zip of the
  workspace of this request: the archive of the file system the request started from,
  with the five template files written and the two placeholder icons copied into the
  workspace directory.
\<close>

theorem C9_download_response:
  assumes "successful e req w"
  shows "let s = sanitizeFilename e (the (appName req));
             d = appDir_of (dirname e) s (uuidv4 e);
             workspace = (fs w)
               (d @ [''index.html''] := Some (File (indexHtml s (rendered e (the (websiteUrl req))))),
                d @ [''manifest.json''] := Some (File (manifest s)),
                d @ [''sw.js''] := Some (File (serviceWorker s)),
                d @ [''app.js''] := Some (File appJs),
                d @ [''styles.css''] := Some (File stylesCss),
                d @ [''icon-192x192.png''] := fs w (dirname e @ [''placeholder-icon-192x192.png'']),
                d @ [''icon-512x512.png''] := fs w (dirname e @ [''placeholder-icon-512x512.png'']))
         in fst (generate_app e req w) =
              \<lparr>status = 200, body = Attachment (s @ ''.zip'') (ZipFile (archive_of workspace d))\<rparr>"
proof -
  let ?s = "sanitizeFilename e (the (appName req))"
  let ?d = "appDir_of (dirname e) ?s (uuidv4 e)"
  let ?u = "the (websiteUrl req)"
  let ?p1 = "dirname e @ [''placeholder-icon-192x192.png'']"
  let ?p2 = "dirname e @ [''placeholder-icon-512x512.png'']"
  from successful_run[OF assms] obtain w1 w2 w3 :: world where
    A: "ensureDir e ?d w = (Inr (), w1)" and
    B: "capture e ?u w1 = (Inr (rendered e ?u), w2)" and
    C: "generateAppFiles e ?d ?s (rendered e ?u) ?u w2 = (Inr (), w3)" and
    R: "fst (generate_app e req w) =
          \<lparr>status = 200, body = Attachment (?s @ ''.zip'') (ZipFile (archive_of (fs w3) ?d))\<rparr>"
    by blast
  have M: "fs w2 = mkdirs (prefixes ?d) (fs w)"
    using ensureDir_Inr[OF A] capture_Inr[OF B] by simp
  have dd: "?d = dirname e @ [''generated-apps'', ?s @ ''-'' @ uuidv4 e]"
    by (simp add: appDir_of_def path_join_def)
  note G = generateAppFiles_fs[OF C dd]
  have kept: "fs w2 p = fs w p" if "is_file (fs w2 p)" for p
    using that mkdirs_cases[of "prefixes ?d" "fs w" p] unfolding M by auto
  have i1: "fs w2 ?p1 = fs w ?p1" using G(2) by (rule kept)
  have i2: "fs w2 ?p2 = fs w ?p2" using G(3) by (rule kept)
  have below: "fs w2 (?d @ rel) = fs w (?d @ rel)" if "rel \<noteq> []" for rel
  proof -
    from that have "?d @ rel \<notin> set (prefixes ?d)" by (simp add: in_set_prefixes)
    then show ?thesis unfolding M by (rule mkdirs_below)
  qed
  have "archive_of (fs w3) ?d =
        archive_of ((fs w)
               (?d @ [''index.html''] := Some (File (indexHtml ?s (rendered e ?u))),
                ?d @ [''manifest.json''] := Some (File (manifest ?s)),
                ?d @ [''sw.js''] := Some (File (serviceWorker ?s)),
                ?d @ [''app.js''] := Some (File appJs),
                ?d @ [''styles.css''] := Some (File stylesCss),
                ?d @ [''icon-192x192.png''] := fs w ?p1,
                ?d @ [''icon-512x512.png''] := fs w ?p2)) ?d"
    unfolding G(1) i1 i2 by (rule archive_of_cong, rule same_updates, rule below)
  with R show ?thesis unfolding Let_def by (simp only:)
qed

subsection \<open>Instances\<close>

theorem C5_capture_failure_writes_nothing_witness:
  "truthy (appName example_request) \<and> truthy (websiteUrl example_request) \<and>
   throws capture_failure_env
     (Goto (the (websiteUrl example_request)) \<lparr>waitUntil = ''networkidle0'', timeout = 60000\<rparr>)
     \<noteq> None \<and>
   (\<forall>p. WriteFile p \<notin> set (calls capture_failure_env example_request example_world)) \<and>
   (\<forall>s z. Archive s z \<notin> set (calls capture_failure_env example_request example_world)) \<and>
   fst (generate_app capture_failure_env example_request example_world)
     = \<lparr>status = 500, body = JsonError ''Internal server error''\<rparr>"
proof -
  have v: "truthy (appName example_request)" "truthy (websiteUrl example_request)"
    by (simp_all add: example_request_def)
  have t: "throws capture_failure_env
     (Goto (the (websiteUrl example_request)) \<lparr>waitUntil = ''networkidle0'', timeout = 60000\<rparr>)
     \<noteq> None"
    by (simp add: capture_failure_env_def example_env_def)
  from C5_capture_failure_writes_nothing[OF v t, of example_world] v t show ?thesis by blast
qed

lemma example_fresh:
  "\<forall>rel. rel \<noteq> [] \<longrightarrow>
     fs example_world (appDir_of (dirname example_env)
        (sanitizeFilename example_env (the (appName example_request))) (uuidv4 example_env) @ rel)
     = None"
  by (simp add: example_world_def example_env_def appDir_of_def path_join_def)

theorem C6_archive_has_seven_files_witness:
  "successful example_env example_request example_world \<and>
   (\<exists>arch. body (fst (generate_app example_env example_request example_world)) =
             Attachment (sanitizeFilename example_env (the (appName example_request)) @ ''.zip'')
               (ZipFile arch) \<and>
           dom arch = {[''index.html''], [''manifest.json''], [''sw.js''], [''app.js''], [''styles.css''],
                       [''icon-192x192.png''], [''icon-512x512.png'']} \<and>
           card (dom arch) = 7 \<and>
           (\<forall>rel \<in> dom arch. is_file (arch rel)))"
  using C6_archive_has_seven_files[OF example_successful example_fresh] example_successful
  by (rule_tac conjI)

theorem C8_markup_embeds_content_witness:
  \<open>successful example_env example_request example_world \<and>
   (\<exists>arch pre post.
     body (fst (generate_app example_env example_request example_world)) =
       Attachment (sanitizeFilename example_env (the (appName example_request)) @ ''.zip'')
         (ZipFile arch) \<and>
     arch [''index.html''] =
       Some (File (pre @ ''<div id="app-content">'' @ ''\<newline>      ''
                   @ rendered example_env (the (websiteUrl example_request))
                   @ ''\<newline>    </div>'' @ post)) \<and>
     sublist ''<link rel="manifest" href="manifest.json">'' pre \<and>
     sublist ''<link rel="stylesheet" href="styles.css">'' pre \<and>
     sublist ''<script src="app.js"></script>'' post)\<close>
  using C8_markup_embeds_content[OF example_successful] example_successful
  by (rule_tac conjI)

theorem C9_download_response_witness:
  "successful example_env example_request example_world \<and>
   (let s = sanitizeFilename example_env (the (appName example_request));
        d = appDir_of (dirname example_env) s (uuidv4 example_env);
        workspace = (fs example_world)
          (d @ [''index.html''] :=
             Some (File (indexHtml s (rendered example_env (the (websiteUrl example_request))))),
           d @ [''manifest.json''] := Some (File (manifest s)),
           d @ [''sw.js''] := Some (File (serviceWorker s)),
           d @ [''app.js''] := Some (File appJs),
           d @ [''styles.css''] := Some (File stylesCss),
           d @ [''icon-192x192.png''] :=
             fs example_world (dirname example_env @ [''placeholder-icon-192x192.png'']),
           d @ [''icon-512x512.png''] :=
             fs example_world (dirname example_env @ [''placeholder-icon-512x512.png'']))
    in fst (generate_app example_env example_request example_world) =
         \<lparr>status = 200, body = Attachment (s @ ''.zip'') (ZipFile (archive_of workspace d))\<rparr>)"
  using C9_download_response[OF example_successful] example_successful
  by (rule_tac conjI)

theorem C7_workspace_paths_distinct_witness:
  "truthy (appName example_request) \<and> truthy (websiteUrl example_request) \<and>
   is_uuid (uuidv4 example_env) \<and>
   is_uuid (uuidv4 (example_env\<lparr>uuidv4 := ''9c0e7a52-1b3d-4f68-8a2c-6d5e4f3a2b1c''\<rparr>)) \<and>
   uuidv4 example_env \<noteq> uuidv4 (example_env\<lparr>uuidv4 := ''9c0e7a52-1b3d-4f68-8a2c-6d5e4f3a2b1c''\<rparr>) \<and>
   dirname example_env @ [''generated-apps'',
       sanitizeFilename example_env (the (appName example_request)) @ ''-'' @ uuidv4 example_env]
   \<noteq> dirname example_env @ [''generated-apps'',
       sanitizeFilename example_env (the (appName example_request)) @ ''-''
         @ ''9c0e7a52-1b3d-4f68-8a2c-6d5e4f3a2b1c'']"
proof -
  let ?e2 = "example_env\<lparr>uuidv4 := ''9c0e7a52-1b3d-4f68-8a2c-6d5e4f3a2b1c''\<rparr>"
  have v: "truthy (appName example_request)" "truthy (websiteUrl example_request)"
    by (simp_all add: example_request_def)
  have u1: "is_uuid (uuidv4 example_env)"
    by (simp add: example_env_def is_uuid_def uuid_char_def)
  have u2: "is_uuid (uuidv4 ?e2)"
    by (simp add: is_uuid_def uuid_char_def)
  have ne: "uuidv4 example_env \<noteq> uuidv4 ?e2" by (simp add: example_env_def)
  from C7_workspace_paths_distinct[OF v v u1 u2 ne, of example_world example_world]
  have "dirname example_env @ [''generated-apps'',
       sanitizeFilename example_env (the (appName example_request)) @ ''-'' @ uuidv4 example_env]
   \<noteq> dirname ?e2 @ [''generated-apps'',
       sanitizeFilename ?e2 (the (appName example_request)) @ ''-'' @ uuidv4 ?e2]"
    unfolding Let_def by blast
  then have "dirname example_env @ [''generated-apps'',
       sanitizeFilename example_env (the (appName example_request)) @ ''-'' @ uuidv4 example_env]
   \<noteq> dirname example_env @ [''generated-apps'',
       sanitizeFilename example_env (the (appName example_request)) @ ''-''
         @ ''9c0e7a52-1b3d-4f68-8a2c-6d5e4f3a2b1c'']"
    by simp
  with v u1 u2 ne show ?thesis by blast
qed

end
